theory Spec2Isabelle
  imports Complex_Main
begin

section \<open>The captcha solve pipeline of AdvancedAICaptchaSolver\<close>

text \<open>
  A shallow embedding of the class \<^verbatim>\<open>AdvancedAICaptchaSolver\<close>: its fields are a record
  that every method takes and returns, an exception is a value of the type
  \<open>completion\<close>, and what a method does to its collaborators (the OCR engine, the
  strategy callbacks, the timer) is written down as a list of events.

  Conventions of the embedding:
  \<^item> a value of JavaScript type \<^verbatim>\<open>?string\<close> is a \<open>string option\<close>, \<open>None\<close> being
    \<^verbatim>\<open>null\<close>; the test \<^verbatim>\<open>if (solution)\<close> is \<open>truthy\<close>, so the empty string is falsy;
  \<^item> the counters and \<^verbatim>\<open>maxRetries\<close> are natural numbers (a JavaScript number stops
    counting at \<open>2 ^ 53\<close>; that limit is not modelled); the field \<^verbatim>\<open>total\<close> of the
    counters is \<open>total_n\<close> here;
  \<^item> a strategy callback is observed through how each of its invocations settles; it
    does not write the fields of the solver;
  \<^item> the rates of \<^verbatim>\<open>getStats\<close> are computed as JavaScript does, in binary64: the
    quotient and the product are rounded to the nearest value with a 53-bit significand,
    ties to even, and \<^verbatim>\<open>toFixed(2)\<close> takes the nearest hundredth of the exact value of
    the product, the larger one on a tie;
  \<^item> \<^verbatim>\<open>log\<close> only prints when \<^verbatim>\<open>debug\<close> is set and changes no field, so it is left
    out; \<^verbatim>\<open>lastError\<close> of \<^verbatim>\<open>solveWithRetry\<close> is only handed to \<^verbatim>\<open>log\<close>;
  \<^item> \<^verbatim>\<open>worker.terminate()\<close> is a call of the engine that returns, recorded as an event.
\<close>

subsection \<open>Values, completions, events\<close>

datatype error = TypeError | TimeoutError | StrategyError string

datatype 'a completion = Normal 'a | Throw error

fun truthy :: "string option \<Rightarrow> bool" where
  "truthy None = False"
| "truthy (Some s) = (s \<noteq> [])"

datatype worker = Worker nat

datatype event =
    CreateWorker
  | Invoke nat
  | Sleep nat
  | Terminate worker

text \<open>
  How one call of a strategy settles inside \<^verbatim>\<open>Promise.race([solveFn(), timeoutPromise])\<close>:
  it resolves with a value, it rejects (or throws), or it is still pending when the
  timer fires.
\<close>

datatype settle = Resolves "string option" | Rejects error | Pending

fun race :: "settle \<Rightarrow> string option completion" where
  "race (Resolves v) = Normal v"
| "race (Rejects e) = Throw e"
| "race Pending = Throw TimeoutError"

subsection \<open>Fields of the class\<close>

record options =
  enableCaching :: bool
  maxRetries :: nat
  strategy :: string
  timeout :: nat
  debug :: bool

record ctor_options =
  arg_enableCaching :: "bool option"
  arg_maxRetries :: "nat option"
  arg_strategy :: "string option"
  arg_timeout :: "nat option"
  arg_debug :: "bool option"

record stats =
  total_n :: nat
  successful :: nat
  failed :: nat
  cached :: nat

record solver =
  options :: options
  worker :: "worker option"
  initialized :: bool
  cache :: "string \<rightharpoonup> string"
  stats :: stats

record captchaData =
  captcha_service :: string
  captcha_sitekey :: string
  captcha_rqtoken :: string

text \<open>
  The collaborators of one \<^verbatim>\<open>solve\<close> call: what \<^verbatim>\<open>Tesseract.createWorker\<close> does, and
  how the two strategy methods settle at their \<open>i\<close>-th invocation (counted from 0) for
  the given site key, request token and user agent.
\<close>

record collaborators =
  createWorker :: "worker completion"
  solveHCaptcha :: "string \<Rightarrow> string \<Rightarrow> string \<Rightarrow> nat \<Rightarrow> settle"
  solveRecaptcha :: "string \<Rightarrow> string \<Rightarrow> string \<Rightarrow> nat \<Rightarrow> settle"

text \<open>The two strategy methods as the class ships them: placeholders that return null.\<close>

definition advancedHCaptchaSolve :: "string \<Rightarrow> string \<Rightarrow> string \<Rightarrow> nat \<Rightarrow> settle" where
  "advancedHCaptchaSolve sitekey rqtoken userAgent i = Resolves None"

definition advancedRecaptchaSolve :: "string \<Rightarrow> string \<Rightarrow> string \<Rightarrow> nat \<Rightarrow> settle" where
  "advancedRecaptchaSolve sitekey rqtoken userAgent i = Resolves None"

definition shipped :: "worker completion \<Rightarrow> collaborators" where
  "shipped cw = \<lparr> createWorker = cw,
                  solveHCaptcha = advancedHCaptchaSolve,
                  solveRecaptcha = advancedRecaptchaSolve \<rparr>"

subsection \<open>Constructor\<close>

fun nullish :: "'a option \<Rightarrow> 'a \<Rightarrow> 'a" where
  "nullish None d = d"
| "nullish (Some v) d = v"

definition zero_stats :: stats where
  "zero_stats = \<lparr> total_n = 0, successful = 0, failed = 0, cached = 0 \<rparr>"

definition constructor :: "ctor_options \<Rightarrow> solver" where
  "constructor a =
     \<lparr> options = \<lparr> enableCaching = nullish (arg_enableCaching a) True,
                   maxRetries = nullish (arg_maxRetries a) 3,
                   strategy = nullish (arg_strategy a) ''auto'',
                   timeout = nullish (arg_timeout a) 30000,
                   debug = nullish (arg_debug a) False \<rparr>,
       worker = None,
       initialized = False,
       cache = Map.empty,
       stats = zero_stats \<rparr>"

definition no_options :: ctor_options where
  "no_options = \<lparr> arg_enableCaching = None, arg_maxRetries = None, arg_strategy = None,
                  arg_timeout = None, arg_debug = None \<rparr>"

subsection \<open>initialize\<close>

definition initialize :: "collaborators \<Rightarrow> solver \<Rightarrow> solver \<times> event list" where
  "initialize env s =
     (if initialized s then (s, [])
      else (case createWorker env of
              Normal w \<Rightarrow> (s\<lparr> worker := Some w, initialized := True \<rparr>, [CreateWorker])
            | Throw e \<Rightarrow> (s, [CreateWorker])))"

subsection \<open>solveWithRetry\<close>

definition backoff :: "nat \<Rightarrow> nat" where
  "backoff i = min (1000 * 2 ^ i) 10000"

fun emit :: "event list \<Rightarrow> 'a \<times> event list \<Rightarrow> 'a \<times> event list" where
  "emit evs (r, tr) = (r, evs @ tr)"

text \<open>
  The \<^verbatim>\<open>for\<close> loop of \<^verbatim>\<open>solveWithRetry\<close> from index \<open>i\<close> on. A resolved attempt with a
  truthy value returns it; a resolved attempt with a falsy value goes to the next index
  with no delay; a rejected or timed-out attempt is caught, and sleeps only when
  \<^verbatim>\<open>i < maxRetries - 1\<close>.
\<close>

function solveWithRetry_from ::
  "options \<Rightarrow> (nat \<Rightarrow> settle) \<Rightarrow> nat \<Rightarrow> string option completion \<times> event list" where
  "solveWithRetry_from opts solveFn i =
     (if i < maxRetries opts then
        (case race (solveFn i) of
           Normal solution \<Rightarrow>
             if truthy solution then (Normal solution, [Invoke i])
             else emit [Invoke i] (solveWithRetry_from opts solveFn (i + 1))
         | Throw e \<Rightarrow>
             if int i < int (maxRetries opts) - 1
             then emit [Invoke i, Sleep (backoff i)] (solveWithRetry_from opts solveFn (i + 1))
             else emit [Invoke i] (solveWithRetry_from opts solveFn (i + 1)))
      else (Normal None, []))"
  by pat_completeness auto
termination
  by (relation "measure (\<lambda>(opts, solveFn, i). maxRetries opts - i)") auto

definition solveWithRetry ::
  "options \<Rightarrow> (nat \<Rightarrow> settle) \<Rightarrow> string option completion \<times> event list" where
  "solveWithRetry opts solveFn = solveWithRetry_from opts solveFn 0"

subsection \<open>solve\<close>

fun getCacheKey :: "captchaData option \<Rightarrow> string completion" where
  "getCacheKey None = Throw TypeError"
| "getCacheKey (Some d) = Normal (captcha_service d @ '':'' @ captcha_sitekey d)"

definition inc_total :: "solver \<Rightarrow> solver" where
  "inc_total s = s\<lparr> stats := (stats s)\<lparr> total_n := total_n (stats s) + 1 \<rparr> \<rparr>"

definition inc_successful :: "solver \<Rightarrow> solver" where
  "inc_successful s = s\<lparr> stats := (stats s)\<lparr> successful := successful (stats s) + 1 \<rparr> \<rparr>"

definition inc_failed :: "solver \<Rightarrow> solver" where
  "inc_failed s = s\<lparr> stats := (stats s)\<lparr> failed := failed (stats s) + 1 \<rparr> \<rparr>"

definition inc_cached :: "solver \<Rightarrow> solver" where
  "inc_cached s = s\<lparr> stats := (stats s)\<lparr> cached := cached (stats s) + 1 \<rparr> \<rparr>"

text \<open>
  The strategy dispatch on \<^verbatim>\<open>captcha_service\<close>; an unknown service leaves
  \<^verbatim>\<open>solution\<close> at null and calls nothing.
\<close>

definition dispatch ::
  "collaborators \<Rightarrow> options \<Rightarrow> captchaData \<Rightarrow> string \<Rightarrow> string option completion \<times> event list" where
  "dispatch env opts d userAgent =
     (if captcha_service d = ''hcaptcha''
      then solveWithRetry opts (solveHCaptcha env (captcha_sitekey d) (captcha_rqtoken d) userAgent)
      else if captcha_service d = ''recaptcha''
      then solveWithRetry opts (solveRecaptcha env (captcha_sitekey d) (captcha_rqtoken d) userAgent)
      else (Normal None, []))"

text \<open>
  The body of the \<^verbatim>\<open>try\<close> block of \<^verbatim>\<open>solve\<close>. A null \<^verbatim>\<open>captchaData\<close> makes the property
  access in \<^verbatim>\<open>getCacheKey\<close> throw. The state returned with a \<open>Throw\<close> is the state at the
  point of the throw.
\<close>

definition solve_try ::
  "collaborators \<Rightarrow> captchaData option \<Rightarrow> string \<Rightarrow> solver
     \<Rightarrow> string option completion \<times> solver \<times> event list" where
  "solve_try env captchaData userAgent s =
     (case getCacheKey captchaData of
        Throw e \<Rightarrow> (Throw e, s, [])
      | Normal cacheKey \<Rightarrow>
          if enableCaching (options s) \<and> cache s cacheKey \<noteq> None
          then (Normal (cache s cacheKey), inc_cached s, [])
          else
            (case initialize env s of
               (s1, tr1) \<Rightarrow>
                 (case captchaData of
                    None \<Rightarrow> (Throw TypeError, s1, tr1)
                  | Some d \<Rightarrow>
                      (case dispatch env (options s1) d userAgent of
                         (Throw e, tr2) \<Rightarrow> (Throw e, s1, tr1 @ tr2)
                       | (Normal solution, tr2) \<Rightarrow>
                           (let s2 = (if truthy solution \<and> enableCaching (options s1)
                                      then s1\<lparr> cache := (cache s1)(cacheKey := solution) \<rparr>
                                      else s1);
                                s3 = (if truthy solution then inc_successful s2
                                      else inc_failed s2)
                            in (Normal solution, s3, tr1 @ tr2))))))"

text \<open>
  \<^verbatim>\<open>solve\<close>: the counter of attempts goes up before the \<^verbatim>\<open>try\<close>; the \<^verbatim>\<open>catch\<close> counts a
  failure and returns null.
\<close>

definition solve ::
  "collaborators \<Rightarrow> captchaData option \<Rightarrow> string \<Rightarrow> solver
     \<Rightarrow> string option completion \<times> solver \<times> event list" where
  "solve env captchaData userAgent s =
     (case solve_try env captchaData userAgent (inc_total s) of
        (Normal r, s', tr) \<Rightarrow> (Normal r, s', tr)
      | (Throw e, s', tr) \<Rightarrow> (Normal None, inc_failed s', tr))"

definition result_of :: "'a \<times> solver \<times> event list \<Rightarrow> 'a" where
  "result_of r = fst r"

definition state_of :: "'a \<times> solver \<times> event list \<Rightarrow> solver" where
  "state_of r = fst (snd r)"

definition trace_of :: "'a \<times> solver \<times> event list \<Rightarrow> event list" where
  "trace_of r = snd (snd r)"

subsection \<open>getStats, clearCache, resetStats, cleanup\<close>

record stats_report =
  r_total :: nat
  r_successful :: nat
  r_failed :: nat
  r_cached :: nat
  successRate :: string
  cacheHitRate :: string

text \<open>
  The numbers of \<^verbatim>\<open>((a / b) * 100).toFixed(2)\<close>. A non-negative finite binary64 value is
  kept as a fraction \<open>(n, d)\<close> of natural numbers whose denominator is a power of two.
  The counters are below \<open>2 ^ 53\<close>, so each is a binary64 value, and no quotient or
  product of the rates leaves the normal range: rounding only has to cut the significand
  to 53 bits.
\<close>

type_synonym binary64 = "nat \<times> nat"

text \<open>The number of binary digits of \<open>n\<close>.\<close>

fun bits :: "nat \<Rightarrow> nat" where
  "bits n = (if n = 0 then 0 else Suc (bits (n div 2)))"

text \<open>The integer nearest to \<open>n / d\<close>, the even one on a tie.\<close>

definition rne :: "nat \<Rightarrow> nat \<Rightarrow> nat" where
  "rne n d =
     (let q = n div d; r = n mod d
      in if 2 * r < d then q else if d < 2 * r then q + 1 else if even q then q else q + 1)"

text \<open>The integer \<open>k\<close> with \<open>2 ^ k \<le> p / q < 2 ^ (k + 1)\<close>, for positive \<open>p\<close> and \<open>q\<close>.\<close>

definition ilog2 :: "nat \<Rightarrow> nat \<Rightarrow> int" where
  "ilog2 p q =
     (let z = int (bits p) - int (bits q)
      in if (if 0 \<le> z then q * 2 ^ nat z \<le> p else q \<le> p * 2 ^ nat (- z)) then z else z - 1)"

text \<open>The power \<open>2 ^ s\<close> as a fraction.\<close>

definition scale :: "int \<Rightarrow> nat \<times> nat" where
  "scale s = (if 0 \<le> s then (2 ^ nat s, 1) else (1, 2 ^ nat (- s)))"

text \<open>
  The binary64 value nearest to \<open>p / q\<close>, ties to even: \<open>p / q\<close> is scaled by the power
  of two that brings it into \<open>[2 ^ 52, 2 ^ 53)\<close>, rounded to an integer significand and
  scaled back.
\<close>

definition round64 :: "nat \<Rightarrow> nat \<Rightarrow> binary64" where
  "round64 p q =
     (if p = 0 then (0, 1)
      else (case scale (52 - ilog2 p q) of (a, b) \<Rightarrow> (rne (p * a) (q * b) * b, a)))"

text \<open>
  \<^verbatim>\<open>a / b\<close> on two counters, and \<^verbatim>\<open>x * k\<close> on a binary64 value and a small integer: the
  exact result, rounded once. \<open>div64\<close> is only used with a positive divisor.
\<close>

definition div64 :: "nat \<Rightarrow> nat \<Rightarrow> binary64" where
  "div64 a b = round64 a b"

definition mul64 :: "binary64 \<Rightarrow> nat \<Rightarrow> binary64" where
  "mul64 x k = round64 (fst x * k) (snd x)"

text \<open>
  \<^verbatim>\<open>x.toFixed(f)\<close> for a non-negative \<open>x\<close> below \<open>10 ^ 21\<close> (a rate is at most
  \<open>100 * 2 ^ 53\<close>): with \<open>h\<close> the integer nearest to \<open>x * 10 ^ f\<close>, the larger one on a
  tie, the decimal digits of \<open>h\<close> with a point before the last \<open>f\<close> of them, padded
  with zeros to at least one digit before the point.
\<close>

definition digit :: "nat \<Rightarrow> char" where
  "digit d = ''0123456789'' ! (d mod 10)"

fun decimal :: "nat \<Rightarrow> string" where
  "decimal n = (if n < 10 then [digit n] else decimal (n div 10) @ [digit (n mod 10)])"

fun digits_fixed :: "nat \<Rightarrow> nat \<Rightarrow> string" where
  "digits_fixed 0 n = []"
| "digits_fixed (Suc f) n = digits_fixed f (n div 10) @ [digit (n mod 10)]"

definition toFixed :: "nat \<Rightarrow> binary64 \<Rightarrow> string" where
  "toFixed f x =
     (let h = (2 * 10 ^ f * fst x + snd x) div (2 * snd x)
      in decimal (h div 10 ^ f) @ (if f = 0 then [] else ''.'' @ digits_fixed f (h mod 10 ^ f)))"

text \<open>The real number a binary64 value stands for.\<close>

definition val :: "binary64 \<Rightarrow> real" where
  "val x = real (fst x) / real (snd x)"

text \<open>Reading a decimal numeral back, to state what \<open>decimal\<close> and \<open>digit\<close> write.\<close>

definition digit_value :: "char \<Rightarrow> nat" where
  "digit_value c = of_char c - 48"

definition number :: "string \<Rightarrow> nat" where
  "number cs = foldl (\<lambda>n c. 10 * n + digit_value c) 0 cs"

definition hundredths_string :: "nat \<Rightarrow> string" where
  "hundredths_string h = decimal (h div 100) @ ''.'' @ [digit (h mod 100 div 10), digit (h mod 10)]"

text \<open>\<^verbatim>\<open>getStats\<close>: the four counters and the two rates.\<close>

definition getStats :: "solver \<Rightarrow> stats_report" where
  "getStats s =
     \<lparr> r_total = total_n (stats s),
       r_successful = successful (stats s),
       r_failed = failed (stats s),
       r_cached = cached (stats s),
       successRate = (if total_n (stats s) > 0
                      then toFixed 2 (mul64 (div64 (successful (stats s)) (total_n (stats s))) 100)
                             @ ''%''
                      else ''N/A''),
       cacheHitRate = (if total_n (stats s) > 0
                       then toFixed 2 (mul64 (div64 (cached (stats s)) (total_n (stats s))) 100)
                              @ ''%''
                       else ''N/A'') \<rparr>"

definition clearCache :: "solver \<Rightarrow> solver" where
  "clearCache s = s\<lparr> cache := Map.empty \<rparr>"

definition resetStats :: "solver \<Rightarrow> solver" where
  "resetStats s = s\<lparr> stats := zero_stats \<rparr>"

definition cleanup :: "solver \<Rightarrow> solver \<times> event list" where
  "cleanup s =
     (case worker s of
        Some w \<Rightarrow> (clearCache (s\<lparr> worker := None, initialized := False \<rparr>), [Terminate w])
      | None \<Rightarrow> (clearCache s, []))"

subsection \<open>Sequences of public operations\<close>

datatype op =
    Solve collaborators "captchaData option" string
  | ClearCache
  | ResetStats
  | Cleanup

fun step :: "op \<Rightarrow> solver \<Rightarrow> solver" where
  "step (Solve env captchaData userAgent) s = state_of (solve env captchaData userAgent s)"
| "step ClearCache s = clearCache s"
| "step ResetStats s = resetStats s"
| "step Cleanup s = fst (cleanup s)"

fun run :: "op list \<Rightarrow> solver \<Rightarrow> solver" where
  "run [] s = s"
| "run (x # xs) s = run xs (step x s)"

subsection \<open>What a trace shows\<close>

fun invocations :: "event list \<Rightarrow> nat list" where
  "invocations [] = []"
| "invocations (Invoke i # tr) = i # invocations tr"
| "invocations (e # tr) = invocations tr"

fun delays :: "event list \<Rightarrow> nat list" where
  "delays [] = []"
| "delays (Sleep d # tr) = d # delays tr"
| "delays (e # tr) = delays tr"

fun fails :: "settle \<Rightarrow> bool" where
  "fails (Resolves v) = False"
| "fails (Rejects e) = True"
| "fails Pending = True"

fun yields :: "settle \<Rightarrow> bool" where
  "yields (Resolves v) = truthy v"
| "yields (Rejects e) = False"
| "yields Pending = False"

text \<open>What attempt \<open>j\<close> leaves in the trace when the loop goes on after it.\<close>

definition slot :: "options \<Rightarrow> (nat \<Rightarrow> settle) \<Rightarrow> nat \<Rightarrow> event list" where
  "slot opts solveFn j =
     Invoke j # (if fails (solveFn j) \<and> j + 1 < maxRetries opts then [Sleep (backoff j)] else [])"

text \<open>The cache test at the head of \<^verbatim>\<open>solve\<close>.\<close>

definition cache_hit :: "solver \<Rightarrow> captchaData option \<Rightarrow> bool" where
  "cache_hit s captchaData =
     (case getCacheKey captchaData of
        Normal k \<Rightarrow> enableCaching (options s) \<and> cache s k \<noteq> None
      | Throw e \<Rightarrow> False)"

text \<open>The tail of the \<^verbatim>\<open>try\<close> block: cache write and success or failure count.\<close>

definition finish :: "string \<Rightarrow> string option \<Rightarrow> solver \<Rightarrow> solver" where
  "finish k solution s1 =
     (let s2 = (if truthy solution \<and> enableCaching (options s1)
                then s1\<lparr> cache := (cache s1)(k := solution) \<rparr> else s1)
      in if truthy solution then inc_successful s2 else inc_failed s2)"

definition stats_inv :: "stats \<Rightarrow> bool" where
  "stats_inv st = (total_n st = successful st + failed st + cached st)"

definition engine_inv :: "solver \<Rightarrow> bool" where
  "engine_inv s = (initialized s \<longrightarrow> worker s \<noteq> None)"

text \<open>Cache keys that begin with the name of a known service and a colon.\<close>

definition known_key :: "string \<Rightarrow> bool" where
  "known_key k = (take 9 k = ''hcaptcha:'' \<or> take 10 k = ''recaptcha:'')"

definition keys_inv :: "solver \<Rightarrow> bool" where
  "keys_inv s = (\<forall>k. cache s k \<noteq> None \<longrightarrow> known_key k)"

subsection \<open>Concrete collaborators and requests\<close>

definition answering :: "string \<Rightarrow> collaborators" where
  "answering tok = \<lparr> createWorker = Normal (Worker 1),
                     solveHCaptcha = (\<lambda>sitekey rqtoken userAgent i. Resolves (Some tok)),
                     solveRecaptcha = (\<lambda>sitekey rqtoken userAgent i. Resolves (Some tok)) \<rparr>"

definition broken :: collaborators where
  "broken = \<lparr> createWorker = Throw (StrategyError ''no engine''),
               solveHCaptcha = (\<lambda>sitekey rqtoken userAgent i. Rejects (StrategyError ''boom'')),
               solveRecaptcha = (\<lambda>sitekey rqtoken userAgent i. Pending) \<rparr>"

definition request :: "string \<Rightarrow> string \<Rightarrow> string \<Rightarrow> captchaData" where
  "request service sitekey rqtoken =
     \<lparr> captcha_service = service, captcha_sitekey = sitekey, captcha_rqtoken = rqtoken \<rparr>"

definition retries :: "nat \<Rightarrow> options" where
  "retries n = \<lparr> enableCaching = True, maxRetries = n, strategy = ''auto'',
                 timeout = 30000, debug = False \<rparr>"

definition always_rejects :: "nat \<Rightarrow> settle" where
  "always_rejects i = Rejects (StrategyError ''boom'')"

definition never_settles :: "nat \<Rightarrow> settle" where
  "never_settles i = Pending"

definition second_time :: "nat \<Rightarrow> settle" where
  "second_time i = (if i = 0 then Rejects (StrategyError ''boom'') else Resolves (Some ''tok''))"

definition empty_then_token :: "nat \<Rightarrow> settle" where
  "empty_then_token i = (if i = 0 then Resolves (Some []) else Resolves (Some ''tok''))"

text \<open>A first solve for \<open>(hcaptcha, sk1)\<close> that succeeds, then a second one for the same
  key with another request token.\<close>

definition sk1_first :: "string option completion \<times> solver \<times> event list" where
  "sk1_first =
     solve (answering ''sol-A'') (Some (request ''hcaptcha'' ''sk1'' ''rq-1'')) ''UA''
       (constructor no_options)"

definition sk1_second :: "string option completion \<times> solver \<times> event list" where
  "sk1_second =
     solve (answering ''sol-B'') (Some (request ''hcaptcha'' ''sk1'' ''rq-2'')) ''UA''
       (state_of sk1_first)"

text \<open>A solve for service \<open>hcaptcha\<close> with site key \<open>a:b\<close>, then one for the service
  \<open>hcaptcha:a\<close> with site key \<open>b\<close>.\<close>

definition colon_first :: "string option completion \<times> solver \<times> event list" where
  "colon_first =
     solve (answering ''tok'') (Some (request ''hcaptcha'' ''a:b'' ''rq-1'')) ''UA''
       (constructor no_options)"

definition colon_second :: "string option completion \<times> solver \<times> event list" where
  "colon_second =
     solve (answering ''tok'') (Some (request ''hcaptcha:a'' ''b'' ''rq-2'')) ''UA''
       (state_of colon_first)"

text \<open>A solver whose counters are set to given numbers.\<close>

definition counted :: "nat \<Rightarrow> nat \<Rightarrow> nat \<Rightarrow> nat \<Rightarrow> solver" where
  "counted t su fa ca =
     (constructor no_options)\<lparr> stats := \<lparr> total_n = t, successful = su, failed = fa, cached = ca \<rparr> \<rparr>"

section \<open>Properties\<close>

subsection \<open>The retry loop\<close>

declare solveWithRetry_from.simps [simp del]

lemma race_cases:
  "(\<exists>v. race st = Normal v \<and> truthy v \<and> yields st \<and> \<not> fails st) \<or>
   (\<exists>v. race st = Normal v \<and> \<not> truthy v \<and> \<not> yields st \<and> \<not> fails st) \<or>
   (\<exists>e. race st = Throw e \<and> \<not> yields st \<and> fails st)"
  by (cases st) auto

lemma swr_stop: "\<not> i < maxRetries opts \<Longrightarrow> solveWithRetry_from opts f i = (Normal None, [])"
  by (simp add: solveWithRetry_from.simps)

lemma swr_hit: "i < maxRetries opts \<Longrightarrow> race (f i) = Normal v \<Longrightarrow> truthy v \<Longrightarrow>
  solveWithRetry_from opts f i = (Normal v, [Invoke i])"
  by (subst solveWithRetry_from.simps) simp

lemma swr_falsy: "i < maxRetries opts \<Longrightarrow> race (f i) = Normal v \<Longrightarrow> \<not> truthy v \<Longrightarrow>
  solveWithRetry_from opts f i = emit [Invoke i] (solveWithRetry_from opts f (i + 1))"
  by (subst solveWithRetry_from.simps) simp

lemma swr_throw: "i < maxRetries opts \<Longrightarrow> race (f i) = Throw e \<Longrightarrow>
  solveWithRetry_from opts f i =
    emit (Invoke i # (if i + 1 < maxRetries opts then [Sleep (backoff i)] else []))
      (solveWithRetry_from opts f (i + 1))"
  by (subst solveWithRetry_from.simps) auto

lemma fst_emit: "fst (emit evs p) = fst p" by (cases p) simp
lemma snd_emit: "snd (emit evs p) = evs @ snd p" by (cases p) simp

lemma invocations_append: "invocations (xs @ ys) = invocations xs @ invocations ys"
  by (induction xs rule: invocations.induct) auto
lemma delays_append: "delays (xs @ ys) = delays xs @ delays ys"
  by (induction xs rule: delays.induct) auto

lemma swr_normal: "\<exists>v. fst (solveWithRetry_from opts f i) = Normal v \<and> (v = None \<or> truthy v)"
proof (induction opts f i rule: solveWithRetry_from.induct)
  case (1 opts f i)
  show ?case
  proof (cases "i < maxRetries opts")
    case False
    then show ?thesis by (simp add: swr_stop)
  next
    case True
    from race_cases [of "f i"] show ?thesis
    proof (elim disjE exE conjE)
      fix v assume "race (f i) = Normal v" "truthy v"
      with True show ?thesis by (simp add: swr_hit)
    next
      fix v assume h: "race (f i) = Normal v" "\<not> truthy v"
      with True 1(1) [of v] show ?thesis by (simp add: swr_falsy fst_emit)
    next
      fix e assume h: "race (f i) = Throw e"
      show ?thesis
      proof (cases "int i < int (maxRetries opts) - 1")
        case True
        with \<open>i < maxRetries opts\<close> h 1(2) [of e] show ?thesis by (simp add: swr_throw fst_emit)
      next
        case False
        with \<open>i < maxRetries opts\<close> h 1(3) [of e] show ?thesis by (simp add: swr_throw fst_emit)
      qed
    qed
  qed
qed

lemma swr_step:
  assumes "i < maxRetries opts"
  shows "solveWithRetry_from opts f i =
     (if yields (f i) then (race (f i), [Invoke i])
      else emit (slot opts f i) (solveWithRetry_from opts f (Suc i)))"
  using race_cases [of "f i"] assms
  by (auto simp: swr_hit swr_falsy swr_throw slot_def)

lemma invocations_slot: "invocations (slot opts f j) = [j]"
  by (simp add: slot_def)

lemma delays_slot:
  "delays (slot opts f j) = (if fails (f j) \<and> j + 1 < maxRetries opts then [backoff j] else [])"
  by (simp add: slot_def)

lemma swr_count: "length (invocations (snd (solveWithRetry_from opts f i))) \<le> maxRetries opts - i"
proof (induction "maxRetries opts - i" arbitrary: i)
  case 0
  then show ?case by (simp add: swr_stop)
next
  case (Suc m)
  then have lt: "i < maxRetries opts" and m: "m = maxRetries opts - Suc i" by simp_all
  from Suc(1) [OF m] lt show ?case
    by (auto simp: swr_step snd_emit invocations_append invocations_slot)
qed

lemma swr_first:
  assumes "i \<le> k" "k < maxRetries opts" "f k = Resolves v" "truthy v"
    and "\<forall>j. i \<le> j \<and> j < k \<longrightarrow> \<not> yields (f j)"
  shows "solveWithRetry_from opts f i = (Normal v, snd (solveWithRetry_from opts f i)) \<and>
         invocations (snd (solveWithRetry_from opts f i)) = [i..<Suc k]"
  using assms
proof (induction "k - i" arbitrary: i)
  case 0
  then have "i = k" by simp
  with 0 show ?case by (simp add: swr_step)
next
  case (Suc m)
  then have lt: "i < k" and m: "m = k - Suc i" by simp_all
  with Suc have ny: "\<not> yields (f i)" and ilt: "i < maxRetries opts" by simp_all
  have ih: "solveWithRetry_from opts f (Suc i) = (Normal v, snd (solveWithRetry_from opts f (Suc i))) \<and>
         invocations (snd (solveWithRetry_from opts f (Suc i))) = [Suc i..<Suc k]"
    using Suc(1) [OF m] lt Suc.prems by simp
  from ih have f1: "fst (solveWithRetry_from opts f (Suc i)) = Normal v" by (metis fst_conv)
  have "[i..<Suc k] = i # [Suc i..<Suc k]" using lt by (simp add: upt_conv_Cons)
  with ih f1 ny ilt show ?case
    by (simp add: swr_step snd_emit fst_emit invocations_append invocations_slot prod_eq_iff)
qed

lemma swr_exhaust:
  assumes "\<forall>j. i \<le> j \<and> j < maxRetries opts \<longrightarrow> \<not> yields (f j)"
  shows "fst (solveWithRetry_from opts f i) = Normal None \<and>
         invocations (snd (solveWithRetry_from opts f i)) = [i..<maxRetries opts]"
  using assms
proof (induction "maxRetries opts - i" arbitrary: i)
  case 0
  then show ?case by (simp add: swr_stop)
next
  case (Suc m)
  then have lt: "i < maxRetries opts" and m: "m = maxRetries opts - Suc i" by simp_all
  with Suc have ny: "\<not> yields (f i)" by simp
  have ih: "fst (solveWithRetry_from opts f (Suc i)) = Normal None \<and>
         invocations (snd (solveWithRetry_from opts f (Suc i))) = [Suc i..<maxRetries opts]"
    using Suc(1) [OF m] Suc.prems by simp
  have "[i..<maxRetries opts] = i # [Suc i..<maxRetries opts]" using lt by (simp add: upt_conv_Cons)
  with ih ny lt show ?case
    by (simp add: swr_step snd_emit fst_emit invocations_append invocations_slot)
qed

lemma swr_trace:
  "snd (solveWithRetry_from opts f i) =
     concat (map (slot opts f) [i..<i + length (invocations (snd (solveWithRetry_from opts f i)))])"
proof (induction "maxRetries opts - i" arbitrary: i)
  case 0
  then show ?case by (simp add: swr_stop)
next
  case (Suc m)
  then have lt: "i < maxRetries opts" and m: "m = maxRetries opts - Suc i" by simp_all
  show ?case
  proof (cases "yields (f i)")
    case True
    then have "\<not> fails (f i)" by (cases "f i") simp_all
    with True lt show ?thesis by (simp add: swr_step slot_def)
  next
    case False
    let ?r = "snd (solveWithRetry_from opts f (Suc i))"
    have ih: "?r = concat (map (slot opts f) [Suc i..<Suc i + length (invocations ?r)])"
      using Suc(1) [OF m] .
    have "[i..<Suc (i + length (invocations ?r))] = i # [Suc i..<Suc (i + length (invocations ?r))]"
      by (rule upt_conv_Cons) simp
    then have u: "[i..<i + Suc (length (invocations ?r))] = i # [Suc i..<Suc i + length (invocations ?r)]"
      by simp
    have "snd (solveWithRetry_from opts f i) = slot opts f i @ ?r"
      using False lt by (simp add: swr_step snd_emit)
    moreover have "length (invocations (slot opts f i @ ?r)) = Suc (length (invocations ?r))"
      by (simp add: invocations_append invocations_slot)
    ultimately show ?thesis using ih u by simp
  qed
qed

lemma delays_slots:
  "delays (concat (map (slot opts f) xs)) =
     map backoff (filter (\<lambda>j. fails (f j) \<and> j + 1 < maxRetries opts) xs)"
  by (induction xs) (simp_all add: delays_append delays_slot)

lemma backoff_values: "map backoff [0..<6] = [1000, 2000, 4000, 8000, 10000, 10000]"
  by (simp add: backoff_def upt_rec)

lemma backoff_cap: "4 \<le> i \<Longrightarrow> backoff i = 10000"
proof -
  assume "4 \<le> i"
  then have "(2::nat) ^ 4 \<le> 2 ^ i" by (intro power_increasing) simp_all
  then have "(10000::nat) \<le> 1000 * 2 ^ i" by simp
  then show ?thesis by (simp add: backoff_def)
qed

lemma filter_less_upt: "filter (\<lambda>j. j < m) [0..<n] = [0..<min m n]"
proof (induction n)
  case 0
  show ?case by simp
next
  case (Suc n)
  show ?case
  proof (cases "n < m")
    case True
    then have "min m (Suc n) = Suc n" "min m n = n" by simp_all
    with Suc True show ?thesis by simp
  next
    case False
    then have "min m (Suc n) = m" "min m n = m" by simp_all
    with Suc False show ?thesis by simp
  qed
qed

subsection \<open>The three ways through solve\<close>

lemmas proj_defs = result_of_def state_of_def trace_of_def
lemmas inc_defs = inc_total_def inc_successful_def inc_failed_def inc_cached_def

lemma dispatch_normal:
  "\<exists>v. fst (dispatch env opts d ua) = Normal v \<and> (v = None \<or> truthy v)"
  using swr_normal by (simp add: dispatch_def solveWithRetry_def)

lemma dispatch_unknown:
  "captcha_service d \<noteq> ''hcaptcha'' \<Longrightarrow> captcha_service d \<noteq> ''recaptcha'' \<Longrightarrow>
   dispatch env opts d ua = (Normal None, [])"
  by (simp add: dispatch_def)

lemma initialize_frame:
  "stats (fst (initialize env s)) = stats s"
  "cache (fst (initialize env s)) = cache s"
  "options (fst (initialize env s)) = options s"
  by (simp_all add: initialize_def split: completion.splits)

lemma solve_null: "solve env None ua s = (Normal None, inc_failed (inc_total s), [])"
  by (simp add: solve_def solve_try_def)

lemma solve_hit:
  assumes "enableCaching (options s)" "getCacheKey cd = Normal k" "cache s k = Some v"
  shows "solve env cd ua s = (Normal (Some v), inc_cached (inc_total s), [])"
  using assms by (simp add: solve_def solve_try_def inc_defs)

lemma solve_try_miss:
  assumes "\<not> (enableCaching (options s) \<and> cache s k \<noteq> None)" "getCacheKey (Some d) = Normal k"
    and "dispatch env (options s) d ua = (Normal sol, tr2)"
  shows "solve_try env (Some d) ua s =
           (Normal sol, finish k sol (fst (initialize env s)), snd (initialize env s) @ tr2)"
proof -
  obtain s1 tr1 where i: "initialize env s = (s1, tr1)" by (cases "initialize env s")
  then have o: "options s1 = options s" using initialize_frame(3) [of env s] by simp
  from assms(2) have k: "k = captcha_service d @ '':'' @ captcha_sitekey d" by simp
  show ?thesis
    using assms(1,3) i o unfolding solve_try_def k
    by (cases "enableCaching (options s)") (simp_all add: finish_def Let_def)
qed

lemma solve_miss:
  assumes "\<not> (enableCaching (options s) \<and> cache s k \<noteq> None)" "getCacheKey (Some d) = Normal k"
    and "dispatch env (options s) d ua = (Normal sol, tr2)"
  shows "solve env (Some d) ua s =
           (Normal sol, finish k sol (fst (initialize env (inc_total s))),
            snd (initialize env (inc_total s)) @ tr2)"
proof -
  have "solve_try env (Some d) ua (inc_total s) =
           (Normal sol, finish k sol (fst (initialize env (inc_total s))),
            snd (initialize env (inc_total s)) @ tr2)"
    using assms by (intro solve_try_miss) (simp_all add: inc_defs)
  then show ?thesis by (simp add: solve_def)
qed

lemma solve_cases:
  obtains (null) "cd = None" "solve env cd ua s = (Normal None, inc_failed (inc_total s), [])"
  | (hit) d k v where "cd = Some d" "getCacheKey cd = Normal k" "enableCaching (options s)" "cache s k = Some v"
      "solve env cd ua s = (Normal (Some v), inc_cached (inc_total s), [])"
  | (miss) d k sol tr2 where "cd = Some d" "getCacheKey cd = Normal k"
      "\<not> (enableCaching (options s) \<and> cache s k \<noteq> None)"
      "dispatch env (options s) d ua = (Normal sol, tr2)" "sol = None \<or> truthy sol"
      "solve env cd ua s = (Normal sol, finish k sol (fst (initialize env (inc_total s))),
            snd (initialize env (inc_total s)) @ tr2)"
proof (cases cd)
  case None
  then show ?thesis using null solve_null by simp
next
  case (Some d)
  define k where "k = captcha_service d @ '':'' @ captcha_sitekey d"
  then have gk: "getCacheKey cd = Normal k" using Some by simp
  show ?thesis
  proof (cases "enableCaching (options s) \<and> cache s k \<noteq> None")
    case True
    then obtain v where "cache s k = Some v" by auto
    with True gk Some show ?thesis using hit solve_hit by blast
  next
    case False
    obtain sol tr2 where d: "dispatch env (options s) d ua = (Normal sol, tr2)" and t: "sol = None \<or> truthy sol"
      using dispatch_normal [of env "options s" d ua] by (cases "dispatch env (options s) d ua") auto
    from solve_miss [OF False _ d] gk Some show ?thesis using miss [OF Some gk False d t] by simp
  qed
qed

lemma finish_stats:
  "stats (finish k sol s1) =
     (if truthy sol then (stats s1)\<lparr> successful := successful (stats s1) + 1 \<rparr>
      else (stats s1)\<lparr> failed := failed (stats s1) + 1 \<rparr>)"
  by (simp add: finish_def inc_defs Let_def)

lemma solve_total: "total_n (stats (state_of (solve env cd ua s))) = total_n (stats s) + 1"
  by (rule solve_cases [where cd = cd and env = env and ua = ua and s = s])
     (simp_all add: proj_defs finish_stats initialize_frame inc_defs)

subsection \<open>Invariants of the fields\<close>

lemma initialize_engine: "engine_inv s \<Longrightarrow> engine_inv (fst (initialize env s))"
  by (simp add: initialize_def engine_inv_def split: completion.splits)

lemma finish_engine:
  "worker (finish k sol s) = worker s" "initialized (finish k sol s) = initialized s"
  by (simp_all add: finish_def inc_defs Let_def)

lemma inc_engine:
  "engine_inv (inc_total s) = engine_inv s" "engine_inv (inc_failed s) = engine_inv s"
  "engine_inv (inc_cached s) = engine_inv s"
  by (simp_all add: engine_inv_def inc_defs)

lemma solve_engine: "engine_inv s \<Longrightarrow> engine_inv (state_of (solve env cd ua s))"
proof (rule solve_cases [where cd = cd and env = env and ua = ua and s = s])
  fix d k sol tr2
  assume e: "engine_inv s"
    and "solve env cd ua s = (Normal sol, finish k sol (fst (initialize env (inc_total s))),
            snd (initialize env (inc_total s)) @ tr2)"
  moreover have "engine_inv (fst (initialize env (inc_total s)))"
    using e by (intro initialize_engine) (simp add: inc_engine)
  ultimately show "engine_inv (state_of (solve env cd ua s))"
    by (simp add: proj_defs engine_inv_def finish_engine)
qed (simp_all add: proj_defs inc_engine)

lemma step_engine: "engine_inv s \<Longrightarrow> engine_inv (step x s)"
  by (cases x)
     (simp_all add: solve_engine, auto simp: engine_inv_def clearCache_def resetStats_def cleanup_def split: option.splits)

lemma run_engine: "engine_inv s \<Longrightarrow> engine_inv (run ops s)"
  by (induction ops arbitrary: s) (simp_all add: step_engine)

lemma constructor_engine: "engine_inv (constructor a)"
  by (simp add: engine_inv_def constructor_def)

lemma reachable_engine: "engine_inv (run ops (constructor a))"
  by (rule run_engine [OF constructor_engine])

lemma cleanup_fields:
  assumes "engine_inv s"
  shows "worker (fst (cleanup s)) = None" "\<not> initialized (fst (cleanup s))"
    "cache (fst (cleanup s)) = Map.empty" "stats (fst (cleanup s)) = stats s"
    "options (fst (cleanup s)) = options s"
    "snd (cleanup s) = (case worker s of Some w \<Rightarrow> [Terminate w] | None \<Rightarrow> [])"
  using assms by (auto simp: cleanup_def clearCache_def engine_inv_def split: option.splits)

lemma solve_fresh_trace:
  assumes "\<not> initialized s" "cache s = Map.empty"
  shows "\<exists>tr. solve env (Some d) ua s =
      (fst (solve env (Some d) ua s),
       finish (captcha_service d @ '':'' @ captcha_sitekey d) (case fst (solve env (Some d) ua s) of Normal r \<Rightarrow> r | Throw e \<Rightarrow> None)
         (case createWorker env of Normal w \<Rightarrow> (inc_total s)\<lparr> worker := Some w, initialized := True \<rparr>
            | Throw e \<Rightarrow> inc_total s),
       CreateWorker # tr)"
proof -
  obtain sol tr2 where d: "dispatch env (options s) d ua = (Normal sol, tr2)"
    using dispatch_normal [of env "options s" d ua] by (cases "dispatch env (options s) d ua") auto
  have m: "\<not> (enableCaching (options s) \<and> cache s (captcha_service d @ '':'' @ captcha_sitekey d) \<noteq> None)"
    using assms by simp
  have i: "initialize env (inc_total s) = (case createWorker env of Normal w \<Rightarrow> (inc_total s)\<lparr> worker := Some w, initialized := True \<rparr>
            | Throw e \<Rightarrow> inc_total s, [CreateWorker])"
    using assms by (simp add: initialize_def inc_defs split: completion.splits)
  show ?thesis
    using solve_miss [OF m _ d] i by simp
qed

lemma stats_cases:
  "stats (state_of (solve env cd ua s)) =
     (if cache_hit s cd
      then (stats s)\<lparr> total_n := total_n (stats s) + 1, cached := cached (stats s) + 1 \<rparr>
      else if truthy (case result_of (solve env cd ua s) of Normal r \<Rightarrow> r | Throw e \<Rightarrow> None)
      then (stats s)\<lparr> total_n := total_n (stats s) + 1, successful := successful (stats s) + 1 \<rparr>
      else (stats s)\<lparr> total_n := total_n (stats s) + 1, failed := failed (stats s) + 1 \<rparr>)"
proof (rule solve_cases [where cd = cd and env = env and ua = ua and s = s])
  assume "cd = None" "solve env cd ua s = (Normal None, inc_failed (inc_total s), [])"
  then show ?thesis by (simp add: proj_defs cache_hit_def inc_defs)
next
  fix d k v
  assume "cd = Some d" "getCacheKey cd = Normal k" "enableCaching (options s)" "cache s k = Some v"
    "solve env cd ua s = (Normal (Some v), inc_cached (inc_total s), [])"
  then show ?thesis by (simp add: proj_defs cache_hit_def inc_defs)
next
  fix d k sol tr2
  assume "cd = Some d" "getCacheKey cd = Normal k"
      "\<not> (enableCaching (options s) \<and> cache s k \<noteq> None)"
      "solve env cd ua s = (Normal sol, finish k sol (fst (initialize env (inc_total s))),
            snd (initialize env (inc_total s)) @ tr2)"
  then show ?thesis
    by (auto simp: proj_defs cache_hit_def finish_stats initialize_frame inc_defs)
qed

lemma solve_stats_inv: "stats_inv (stats s) \<Longrightarrow> stats_inv (stats (state_of (solve env cd ua s)))"
  by (simp add: stats_cases stats_inv_def)

lemma step_stats_inv: "stats_inv (stats s) \<Longrightarrow> stats_inv (stats (step x s))"
  by (cases x)
     (simp_all add: solve_stats_inv, simp_all add: stats_inv_def clearCache_def resetStats_def cleanup_def zero_stats_def split: option.splits)

lemma run_stats_inv: "stats_inv (stats s) \<Longrightarrow> stats_inv (stats (run ops s))"
  by (induction ops arbitrary: s) (simp_all add: step_stats_inv)

lemma known_key_service:
  "captcha_service d = ''hcaptcha'' \<or> captcha_service d = ''recaptcha'' \<Longrightarrow>
   known_key (captcha_service d @ '':'' @ captcha_sitekey d)"
  by (auto simp: known_key_def)

lemma dispatch_truthy_known:
  assumes "dispatch env opts d ua = (Normal sol, tr)" "truthy sol"
  shows "captcha_service d = ''hcaptcha'' \<or> captcha_service d = ''recaptcha''"
proof (rule ccontr)
  assume "\<not> ?thesis"
  then have "dispatch env opts d ua = (Normal None, [])" by (simp add: dispatch_unknown)
  with assms show False by simp
qed

lemma finish_cache:
  "cache (finish k sol s1) =
     (if truthy sol \<and> enableCaching (options s1) then (cache s1)(k := sol) else cache s1)"
  by (simp add: finish_def Let_def inc_defs)

lemma solve_keys: "keys_inv s \<Longrightarrow> keys_inv (state_of (solve env cd ua s))"
proof (rule solve_cases [where cd = cd and env = env and ua = ua and s = s])
  fix d k sol tr2
  assume i: "keys_inv s" and cd: "cd = Some d" and gk: "getCacheKey cd = Normal k"
    and d: "dispatch env (options s) d ua = (Normal sol, tr2)"
    and e: "solve env cd ua s = (Normal sol, finish k sol (fst (initialize env (inc_total s))),
            snd (initialize env (inc_total s)) @ tr2)"
  have c: "cache (fst (initialize env (inc_total s))) = cache s"
    by (simp add: initialize_frame) (simp add: inc_total_def)
  have "truthy sol \<Longrightarrow> known_key k"
    using dispatch_truthy_known [OF d] known_key_service [of d] gk cd by auto
  with i show "keys_inv (state_of (solve env cd ua s))"
    unfolding e by (auto simp: state_of_def keys_inv_def finish_cache c)
qed (simp_all add: proj_defs keys_inv_def inc_defs)

lemma step_keys: "keys_inv s \<Longrightarrow> keys_inv (step x s)"
  by (cases x)
     (simp_all add: solve_keys, auto simp: keys_inv_def clearCache_def resetStats_def cleanup_def split: option.splits)

lemma run_keys: "keys_inv s \<Longrightarrow> keys_inv (run ops s)"
  by (induction ops arbitrary: s) (simp_all add: step_keys)

lemma reachable_keys: "keys_inv (run ops (constructor a))"
  by (rule run_keys) (simp add: keys_inv_def constructor_def)

lemma unknown_key_miss:
  assumes "s = run ops (constructor a)" "\<not> known_key (captcha_service d @ '':'' @ captcha_sitekey d)"
  shows "\<not> cache_hit s (Some d)"
  using reachable_keys [of ops a] assms by (auto simp: cache_hit_def keys_inv_def)

lemma percent_not_sentinel: "x @ ''%'' \<noteq> ''N/A''"
proof
  assume "x @ ''%'' = ''N/A''"
  then have "last (x @ ''%'') = last ''N/A''" by simp
  then show False by simp
qed

subsection \<open>The rates of getStats\<close>

declare bits.simps [simp del]

lemma bits_bounds: "0 < n \<Longrightarrow> 2 ^ bits n \<le> 2 * n \<and> n < 2 ^ bits n"
proof (induction n rule: bits.induct)
  case (1 n)
  show ?case
  proof (cases "n div 2 = 0")
    case True
    with 1(2) have "n = 1" by (simp add: div_eq_0_iff) 
    then show ?thesis by (simp add: bits.simps [of "Suc 0"] bits.simps [of 0])
  next
    case False
    then have "0 < n div 2" by simp
    with 1 have ih: "2 ^ bits (n div 2) \<le> 2 * (n div 2)" "n div 2 < 2 ^ bits (n div 2)" by simp_all
    have b: "bits n = Suc (bits (n div 2))" using 1(2) by (simp add: bits.simps [of n])
    have "2 * (n div 2) \<le> n" by simp
    moreover have "n < 2 * (n div 2) + 2" by presburger
    ultimately show ?thesis using ih unfolding b by simp
  qed
qed

lemma rne_bound:
  assumes "0 < d"
  shows "\<bar>real (rne n d) - real n / real d\<bar> \<le> 1 / 2"
proof -
  define q r where "q = n div d" and "r = n mod d"
  have "n = q * d + r" by (simp add: q_def r_def)
  then have "real n = real (q * d + r)" by simp
  then have n: "real n = real q * real d + real r" by simp
  have r: "r < d" unfolding r_def using assms by simp
  have d: "0 < real d" using assms by simp
  have nd: "real n / real d = real q + real r / real d"
    using d by (simp add: n add_divide_distrib)
  have f: "0 \<le> real r / real d" "real r / real d < 1" using r d by simp_all
  consider "2 * r < d" | "d < 2 * r" | "2 * r = d" by linarith
  then show ?thesis
  proof cases
    case 1
    then have "rne n d = q" by (simp add: rne_def q_def r_def Let_def)
    moreover from less_imp_of_nat_less [OF 1, where 'a = real] have "2 * real r < real d" by simp
    then have "real r / real d < 1 / 2" using d by (simp add: field_simps)
    ultimately show ?thesis using nd f by simp
  next
    case 2
    then have "rne n d = q + 1" by (simp add: rne_def q_def r_def Let_def)
    moreover from less_imp_of_nat_less [OF 2, where 'a = real] have "real d < 2 * real r" by simp
    then have "1 / 2 < real r / real d" using d by (simp add: field_simps)
    ultimately show ?thesis using nd f by simp
  next
    case 3
    then have "rne n d = q \<or> rne n d = q + 1" by (simp add: rne_def q_def r_def Let_def)
    moreover from arg_cong [OF 3, of real] have "2 * real r = real d" by simp
    then have "real r / real d = 1 / 2" using d by (simp add: field_simps)
    ultimately show ?thesis using nd by auto
  qed
qed

lemma two_powr_nonneg: "0 \<le> s \<Longrightarrow> 2 powr real_of_int s = 2 ^ nat s"
  using powr_realpow [of 2 "nat s"] by simp

lemma two_powr_neg:
  assumes "\<not> 0 \<le> s"
  shows "2 powr real_of_int s = 1 / 2 ^ nat (- s)"
proof -
  have r: "real_of_int s = - real (nat (- s))" using assms by simp
  have p: "(2::real) powr real (nat (- s)) = 2 ^ nat (- s)"
    by (rule powr_realpow) simp
  have "(2::real) powr (- real (nat (- s))) = 1 / 2 powr real (nat (- s))"
    by (rule powr_minus_divide)
  then show ?thesis unfolding r p .
qed

lemma ilog2_lower:
  assumes "0 < p" "0 < q"
  shows "2 powr real_of_int (ilog2 p q) \<le> real p / real q"
proof -
  let ?z = "int (bits p) - int (bits q)"
  have q: "0 < real q" using assms by simp
  have low: "2 powr real_of_int (?z - 1) \<le> real p / real q"
  proof -
    from bits_bounds [OF assms(1)] have "2 ^ bits p \<le> 2 * p" by simp
    from of_nat_mono [OF this, where 'a = real]
    have 1: "(2::real) ^ bits p \<le> 2 * real p" by simp
    from bits_bounds [OF assms(2)] have "q < 2 ^ bits q" by simp
    from less_imp_of_nat_less [OF this, where 'a = real]
    have 2: "real q < 2 ^ bits q" by simp
    have "2 powr real_of_int (?z - 1) = 2 powr (real (bits p) - real (bits q) - 1)"
      by simp
    also have "\<dots> = 2 ^ bits p / (2 ^ bits q * 2)"
      by (simp add: powr_diff powr_realpow)
    also have "\<dots> \<le> (2 * real p) / (2 ^ bits q * 2)"
      by (rule divide_right_mono [OF 1]) simp
    also have "\<dots> = real p / 2 ^ bits q" by simp
    also have "\<dots> \<le> real p / real q"
      by (rule divide_left_mono) (use 2 q in simp_all)
    finally show ?thesis .
  qed
  show ?thesis
  proof (cases "if 0 \<le> ?z then q * 2 ^ nat ?z \<le> p else q \<le> p * 2 ^ nat (- ?z)")
    case False
    then have "ilog2 p q = ?z - 1" by (simp add: ilog2_def Let_def)
    with low show ?thesis by simp
  next
    case True
    then have i: "ilog2 p q = ?z" by (simp add: ilog2_def Let_def)
    show ?thesis
    proof (cases "0 \<le> ?z")
      case nn: True
      with True have "q * 2 ^ nat ?z \<le> p" by simp
      from of_nat_mono [OF this, where 'a = real]
      have "real q * 2 ^ nat ?z \<le> real p" by simp
      then have "2 ^ nat ?z \<le> real p / real q" using q by (simp add: field_simps)
      moreover have "2 powr real_of_int ?z = 2 ^ nat ?z"
        by (rule two_powr_nonneg [OF nn])
      ultimately show ?thesis using i by simp
    next
      case neg: False
      with True have "q \<le> p * 2 ^ nat (- ?z)" by simp
      from of_nat_mono [OF this, where 'a = real]
      have "real q \<le> real p * 2 ^ nat (- ?z)" by simp
      then have "1 / 2 ^ nat (- ?z) \<le> real p / real q" using q by (simp add: field_simps)
      moreover have "2 powr real_of_int ?z = 1 / 2 ^ nat (- ?z)"
        by (rule two_powr_neg [OF neg])
      ultimately show ?thesis using i by simp
    qed
  qed
qed

lemma scale_value:
  assumes "scale s = (a, b)"
  shows "0 < a \<and> 0 < b \<and> real a / real b = 2 powr real_of_int s"
proof (cases "0 \<le> s")
  case True
  then have "a = 2 ^ nat s" "b = 1" using assms by (simp_all add: scale_def)
  moreover have "2 powr real_of_int s = 2 ^ nat s"
    by (rule two_powr_nonneg [OF True])
  ultimately show ?thesis by simp
next
  case False
  then have "a = 1" "b = 2 ^ nat (- s)" using assms by (simp_all add: scale_def)
  moreover have "2 powr real_of_int s = 1 / 2 ^ nat (- s)"
    by (rule two_powr_neg [OF False])
  ultimately show ?thesis by simp
qed

lemma round64_err:
  assumes "0 < q"
  shows "0 < snd (round64 p q) \<and>
         \<bar>val (round64 p q) - real p / real q\<bar> \<le> (real p / real q) / 2 ^ 53"
proof (cases "p = 0")
  case True
  then show ?thesis by (simp add: round64_def val_def)
next
  case False
  then have p: "0 < p" by simp
  obtain a b where s: "scale (52 - ilog2 p q) = (a, b)" by (cases "scale (52 - ilog2 p q)")
  from scale_value [OF s] have a: "0 < a" and b: "0 < b"
    and ab: "real a / real b = 2 powr real_of_int (52 - ilog2 p q)" by simp_all
  define m where "m = rne (p * a) (q * b)"
  have r: "round64 p q = (m * b, a)" using False s by (simp add: round64_def m_def)
  define c where "c = real a / real b"
  define x where "x = real p / real q"
  have c: "0 < c" using a b by (simp add: c_def)
  have x: "0 < x" using p assms by (simp add: x_def)
  have y: "real (p * a) / real (q * b) = x * c" by (simp add: x_def c_def)
  have "0 < q * b" using assms b by simp
  from rne_bound [OF this, of "p * a"] have m: "\<bar>real m - x * c\<bar> \<le> 1 / 2"
    unfolding m_def y .
  have v: "val (round64 p q) = real m / c" using a b by (simp add: r val_def c_def)
  have "2 powr real_of_int (ilog2 p q) * c \<le> x * c"
    unfolding x_def by (rule mult_right_mono [OF ilog2_lower [OF p assms]]) (use c in simp)
  moreover have "2 powr real_of_int (ilog2 p q) * c = 2 powr 52"
    unfolding c_def ab by (simp add: powr_add [symmetric])
  moreover have "(2::real) powr 52 = 2 ^ 52"
    using powr_realpow [of "2::real" 52] by simp
  ultimately have big: "2 ^ 52 \<le> x * c" by simp
  have "\<bar>real m / c - x\<bar> = \<bar>real m - x * c\<bar> / c"
    using c by (simp add: field_simps abs_divide)
  also have "\<dots> \<le> (1 / 2) / c" by (rule divide_right_mono [OF m]) (use c in simp)
  also have "\<dots> \<le> x / 2 ^ 53"
  proof -
    have "(1 / 2) / c = (2 ^ 52 / c) / 2 ^ 53" by simp
    also have "\<dots> \<le> ((x * c) / c) / 2 ^ 53"
      using big c by (intro divide_right_mono) simp_all
    also have "\<dots> = x / 2 ^ 53" using c by simp
    finally show ?thesis .
  qed
  finally have "\<bar>val (round64 p q) - x\<bar> \<le> x / 2 ^ 53" unfolding v .
  then show ?thesis using a by (simp add: r x_def)
qed

lemma nearest_hundredth:
  assumes "0 < d"
  shows "\<bar>real ((200 * n + d) div (2 * d)) - 100 * (real n / real d)\<bar> \<le> 1 / 2"
proof -
  define h r where "h = (200 * n + d) div (2 * d)" and "r = (200 * n + d) mod (2 * d)"
  have "200 * n + d = h * (2 * d) + r"
    unfolding h_def r_def by (rule div_mult_mod_eq [symmetric])
  then have "real (200 * n + d) = real (h * (2 * d) + r)" by simp
  then have e: "200 * real n + real d = real h * (2 * real d) + real r" by simp
  have "r < 2 * d" unfolding r_def using assms by simp
  from less_imp_of_nat_less [OF this, where 'a = real] have r: "real r < 2 * real d" by simp
  have d: "0 < real d" using assms by simp
  have "100 * (real n / real d) = (real h * (2 * real d) + real r - real d) / (2 * real d)"
    using d e by (simp add: field_simps)
  also have "\<dots> = real h + real r / (2 * real d) - 1 / 2"
    using d by (simp add: field_simps)
  finally have "100 * (real n / real d) - real h = real r / (2 * real d) - 1 / 2" by simp
  moreover have "0 \<le> real r / (2 * real d)" "real r / (2 * real d) < 1" using r d by simp_all
  ultimately show ?thesis unfolding h_def by linarith
qed

lemma percent_value_err:
  assumes "0 < t"
  shows "0 < snd (mul64 (div64 s t) 100) \<and>
         \<bar>val (mul64 (div64 s t) 100) - 100 * (real s / real t)\<bar>
           \<le> 100 * (real s / real t) / 2 ^ 51"
proof -
  define X where "X = real s / real t"
  define e :: real where "e = 1 / 2 ^ 53"
  define v1 where "v1 = val (div64 s t)"
  define v2 where "v2 = val (mul64 (div64 s t) 100)"
  have X: "0 \<le> X" by (simp add: X_def)
  have e: "0 \<le> e" "e \<le> 1" by (simp_all add: e_def)
  from round64_err [OF assms, of s]
  have d1: "0 < snd (div64 s t)" and 1: "\<bar>v1 - X\<bar> \<le> X * e"
    by (simp_all add: div64_def v1_def X_def e_def)
  have m: "round64 (fst (div64 s t) * 100) (snd (div64 s t)) = mul64 (div64 s t) 100"
    by (simp add: mul64_def)
  have q: "real (fst (div64 s t) * 100) / real (snd (div64 s t)) = 100 * v1"
    by (simp add: v1_def val_def)
  from round64_err [OF d1, of "fst (div64 s t) * 100"]
  have "0 < snd (mul64 (div64 s t) 100) \<and> \<bar>v2 - 100 * v1\<bar> \<le> (100 * v1) / 2 ^ 53"
    unfolding m q v2_def .
  then have d2: "0 < snd (mul64 (div64 s t) 100)" and 2: "\<bar>v2 - 100 * v1\<bar> \<le> 100 * v1 * e"
    by (simp_all add: e_def)
  from 1 have "v1 \<le> X + X * e" by linarith
  then have "100 * v1 * e \<le> 100 * (X + X * e) * e" using e by (simp add: mult_right_mono)
  with 2 have 3: "\<bar>v2 - 100 * v1\<bar> \<le> 100 * (X + X * e) * e" by linarith
  have "X * e * e \<le> X * e * 1" using X e by (intro mult_left_mono) simp_all
  then have 4: "100 * (X + X * e) * e \<le> 200 * (X * e)" by (simp add: algebra_simps)
  have "\<bar>v2 - 100 * X\<bar> \<le> 300 * (X * e)" using 1 3 4 by linarith
  also have "\<dots> \<le> 100 * X / 2 ^ 51" using X by (simp add: e_def)
  finally show ?thesis using d2 by (simp add: v2_def X_def)
qed

lemma digit_value_digit: "digit_value (digit d) = d mod 10"
proof -
  have "d mod 10 < 10" by simp
  then consider "d mod 10 = 0" | "d mod 10 = 1" | "d mod 10 = 2" | "d mod 10 = 3"
    | "d mod 10 = 4" | "d mod 10 = 5" | "d mod 10 = 6" | "d mod 10 = 7" | "d mod 10 = 8"
    | "d mod 10 = 9"
    by atomize_elim arith
  then show ?thesis
    by cases (simp_all add: digit_def digit_value_def)
qed

lemma number_snoc: "number (cs @ [c]) = 10 * number cs + digit_value c"
  by (simp add: number_def)

declare decimal.simps [simp del]

lemma number_decimal: "number (decimal n) = n"
proof (induction n rule: decimal.induct)
  case (1 n)
  show ?case
  proof (cases "n < 10")
    case True
    then show ?thesis
      by (simp add: decimal.simps [of n] number_def digit_value_digit)
  next
    case False
    with 1 have "number (decimal (n div 10)) = n div 10" by simp
    with False show ?thesis
      by (simp add: decimal.simps [of n] number_snoc digit_value_digit)
  qed
qed

lemma digits_fixed_2: "digits_fixed 2 n = [digit (n div 10 mod 10), digit (n mod 10)]"
  by (simp add: numeral_2_eq_2)

lemma toFixed_2: "toFixed 2 x = hundredths_string ((200 * fst x + snd x) div (2 * snd x))"
  by (simp add: toFixed_def digits_fixed_2 hundredths_string_def Let_def mod_mod_cancel)

lemma number_hundredths:
  "100 * number (decimal (h div 100)) + 10 * digit_value (digit (h mod 100 div 10)) +
     digit_value (digit (h mod 10)) = h"
proof -
  have "h mod 100 < 10 * 10" by simp
  then have "h mod 100 div 10 < 10" by (rule less_mult_imp_div_less)
  then have 1: "h mod 100 div 10 mod 10 = h mod 100 div 10" by (rule mod_less)
  have 2: "h mod 10 mod 10 = h mod 10" by (rule mod_mod_trivial)
  have 3: "h mod 100 mod 10 = h mod 10" by (rule mod_mod_cancel) simp
  have "h = 100 * (h div 100) + h mod 100" by (rule mult_div_mod_eq [symmetric])
  also have "h mod 100 = 10 * (h mod 100 div 10) + h mod 100 mod 10"
    by (rule mult_div_mod_eq [symmetric])
  finally have e: "h = 100 * (h div 100) + (10 * (h mod 100 div 10) + h mod 10)"
    unfolding 3 .
  have g: "100 * number (decimal (h div 100)) + 10 * digit_value (digit (h mod 100 div 10)) +
     digit_value (digit (h mod 10)) = 100 * (h div 100) + (10 * (h mod 100 div 10) + h mod 10)"
    by (simp only: number_decimal digit_value_digit 1 2 add.assoc)
  show ?thesis by (rule trans [OF g e [symmetric]])
qed

lemma ilog2_upper:
  assumes "0 < p" "0 < q"
  shows "real p / real q < 2 powr real_of_int (ilog2 p q + 1)"
proof -
  let ?z = "int (bits p) - int (bits q)"
  have q: "0 < real q" using assms by simp
  have up: "real p / real q < 2 powr real_of_int (?z + 1)"
  proof -
    from bits_bounds [OF assms(1)] have "p < 2 ^ bits p" by simp
    from less_imp_of_nat_less [OF this, where 'a = real]
    have 1: "real p < 2 ^ bits p" by simp
    from bits_bounds [OF assms(2)] have "2 ^ bits q \<le> 2 * q" by simp
    from of_nat_mono [OF this, where 'a = real]
    have 2: "(2::real) ^ bits q \<le> 2 * real q" by simp
    have "real p / real q < 2 ^ bits p / real q"
      by (rule divide_strict_right_mono [OF 1 q])
    also have "\<dots> \<le> 2 ^ bits p / (2 ^ bits q / 2)"
      by (rule divide_left_mono) (use 2 q in simp_all)
    also have "\<dots> = 2 powr (real (bits p) - real (bits q) + 1)"
      by (simp add: powr_add powr_diff powr_realpow)
    also have "\<dots> = 2 powr real_of_int (?z + 1)" by simp
    finally show ?thesis .
  qed
  show ?thesis
  proof (cases "if 0 \<le> ?z then q * 2 ^ nat ?z \<le> p else q \<le> p * 2 ^ nat (- ?z)")
    case True
    then have "ilog2 p q = ?z" by (simp add: ilog2_def Let_def)
    with up show ?thesis by simp
  next
    case False
    then have i: "ilog2 p q + 1 = ?z" by (simp add: ilog2_def Let_def)
    show ?thesis
    proof (cases "0 \<le> ?z")
      case nn: True
      with False have "p < q * 2 ^ nat ?z" by simp
      from less_imp_of_nat_less [OF this, where 'a = real]
      have "real p < real q * 2 ^ nat ?z" by simp
      then have "real p / real q < 2 ^ nat ?z" using q by (simp add: field_simps)
      then show ?thesis unfolding i two_powr_nonneg [OF nn] .
    next
      case neg: False
      with False have "p * 2 ^ nat (- ?z) < q" by simp
      from less_imp_of_nat_less [OF this, where 'a = real]
      have "real p * 2 ^ nat (- ?z) < real q" by simp
      then have "real p / real q < 1 / 2 ^ nat (- ?z)" using q by (simp add: field_simps)
      then show ?thesis unfolding i two_powr_neg [OF neg] .
    qed
  qed
qed

lemma round64_significand:
  assumes "0 < p" "0 < q"
  shows "\<exists>m a b. scale (52 - ilog2 p q) = (a, b) \<and> round64 p q = (m * b, a) \<and>
           2 ^ 52 \<le> m \<and> m \<le> 2 ^ 53"
proof -
  obtain a b where s: "scale (52 - ilog2 p q) = (a, b)" by (cases "scale (52 - ilog2 p q)")
  from scale_value [OF s] have a: "0 < a" and b: "0 < b"
    and ab: "real a / real b = 2 powr real_of_int (52 - ilog2 p q)" by simp_all
  define m where "m = rne (p * a) (q * b)"
  have r: "round64 p q = (m * b, a)" using assms s by (simp add: round64_def m_def)
  define c where "c = real a / real b"
  define x where "x = real p / real q"
  have c: "0 < c" using a b by (simp add: c_def)
  have y: "real (p * a) / real (q * b) = x * c" by (simp add: x_def c_def)
  have "0 < q * b" using assms b by simp
  from rne_bound [OF this, of "p * a"] have m: "\<bar>real m - x * c\<bar> \<le> 1 / 2"
    unfolding m_def y .
  have "2 powr real_of_int (ilog2 p q) * c \<le> x * c"
    unfolding x_def by (rule mult_right_mono [OF ilog2_lower [OF assms]]) (use c in simp)
  moreover have "2 powr real_of_int (ilog2 p q) * c = 2 powr 52"
    unfolding c_def ab by (simp add: powr_add [symmetric])
  moreover have p52: "(2::real) powr 52 = 2 ^ 52"
    using powr_realpow [of "2::real" 52] by simp
  ultimately have lo: "2 ^ 52 \<le> x * c" by simp
  have "x * c < 2 powr real_of_int (ilog2 p q + 1) * c"
    unfolding x_def by (rule mult_strict_right_mono [OF ilog2_upper [OF assms] c])
  moreover have "2 powr real_of_int (ilog2 p q + 1) * c = 2 powr 53"
    unfolding c_def ab by (simp add: powr_add [symmetric])
  moreover have "(2::real) powr 53 = 2 ^ 53"
    using powr_realpow [of "2::real" 53] by simp
  ultimately have hi: "x * c < 2 ^ 53" by simp
  have 1: "2 ^ 52 \<le> m"
  proof (rule ccontr)
    assume "\<not> 2 ^ 52 \<le> m"
    then have "m + 1 \<le> 2 ^ 52" by simp
    from of_nat_mono [OF this, where 'a = real] have "real m + 1 \<le> 2 ^ 52" by simp
    with m lo show False by linarith
  qed
  have 2: "m \<le> 2 ^ 53"
  proof (rule ccontr)
    assume "\<not> m \<le> 2 ^ 53"
    then have "2 ^ 53 + 1 \<le> m" by simp
    from of_nat_mono [OF this, where 'a = real] have "2 ^ 53 + 1 \<le> real m" by simp
    with m hi show False by linarith
  qed
  from s r 1 2 show ?thesis by blast
qed

lemmas f64_defs =
  div64_def mul64_def round64_def ilog2_def scale_def rne_def toFixed_2 hundredths_string_def
  digit_def Let_def bits.simps decimal.simps

lemma rate_23_160: "toFixed 2 (mul64 (div64 23 160) 100) = ''14.37''"
  by (simp add: f64_defs)

lemma rate_7_160: "toFixed 2 (mul64 (div64 7 160) 100) = ''4.38''"
  by (simp add: f64_defs)

lemma rate_5_4000: "toFixed 2 (mul64 (div64 5 4000) 100) = ''0.13''"
  by (simp add: f64_defs)

lemma rate_0_4000: "toFixed 2 (mul64 (div64 0 4000) 100) = ''0.00''"
  by (simp add: f64_defs)

lemma rate_2_6: "toFixed 2 (mul64 (div64 2 6) 100) = ''33.33''"
  by (simp add: f64_defs)

lemma rate_4_6: "toFixed 2 (mul64 (div64 4 6) 100) = ''66.67''"
  by (simp add: f64_defs)

lemma rate_1_2: "toFixed 2 (mul64 (div64 (Suc 0) 2) 100) = ''50.00''"
  by (simp add: f64_defs)

lemma rate_string:
  assumes "0 < t"
  shows "\<exists>h. toFixed 2 (mul64 (div64 a t) 100) = hundredths_string h \<and>
           \<bar>real h / 100 - 100 * (real a / real t)\<bar>
             \<le> 1 / 200 + 100 * (real a / real t) / 2 ^ 51"
proof -
  define x where "x = mul64 (div64 a t) 100"
  define h where "h = (200 * fst x + snd x) div (2 * snd x)"
  from percent_value_err [OF assms, of a]
  have d: "0 < snd x" and v: "\<bar>val x - 100 * (real a / real t)\<bar> \<le> 100 * (real a / real t) / 2 ^ 51"
    unfolding x_def by simp_all
  from nearest_hundredth [OF d, of "fst x"]
  have n: "\<bar>real h - 100 * val x\<bar> \<le> 1 / 2" unfolding h_def val_def .
  have "\<bar>real h / 100 - val x\<bar> \<le> 1 / 200" using n by linarith
  with v have "\<bar>real h / 100 - 100 * (real a / real t)\<bar>
      \<le> 1 / 200 + 100 * (real a / real t) / 2 ^ 51"
    by linarith
  moreover have "toFixed 2 (mul64 (div64 a t) 100) = hundredths_string h"
    unfolding x_def [symmetric] h_def by (rule toFixed_2)
  ultimately show ?thesis by blast
qed

subsection \<open>Concrete runs\<close>

lemmas run_defs =
  solve_def solve_try_def dispatch_def solveWithRetry_def initialize_def constructor_def
  no_options_def answering_def request_def zero_stats_def

lemma sk1_first_eval:
  "sk1_first =
     (Normal (Some ''sol-A''),
      \<lparr> options = \<lparr> enableCaching = True, maxRetries = 3, strategy = ''auto'',
                    timeout = 30000, debug = False \<rparr>,
        worker = Some (Worker 1), initialized = True,
        cache = [''hcaptcha:sk1'' \<mapsto> ''sol-A''],
        stats = \<lparr> total_n = 1, successful = 1, failed = 0, cached = 0 \<rparr> \<rparr>,
      [CreateWorker, Invoke 0])"
  by (simp add: sk1_first_def run_defs inc_defs swr_hit)

lemma sk1_second_eval:
  "sk1_second =
     (Normal (Some ''sol-A''),
      \<lparr> options = \<lparr> enableCaching = True, maxRetries = 3, strategy = ''auto'',
                    timeout = 30000, debug = False \<rparr>,
        worker = Some (Worker 1), initialized = True,
        cache = [''hcaptcha:sk1'' \<mapsto> ''sol-A''],
        stats = \<lparr> total_n = 2, successful = 1, failed = 0, cached = 1 \<rparr> \<rparr>,
      [])"
  by (simp add: sk1_second_def sk1_first_eval proj_defs run_defs inc_defs)

lemma colon_first_eval:
  "colon_first =
     (Normal (Some ''tok''),
      \<lparr> options = \<lparr> enableCaching = True, maxRetries = 3, strategy = ''auto'',
                    timeout = 30000, debug = False \<rparr>,
        worker = Some (Worker 1), initialized = True,
        cache = [''hcaptcha:a:b'' \<mapsto> ''tok''],
        stats = \<lparr> total_n = 1, successful = 1, failed = 0, cached = 0 \<rparr> \<rparr>,
      [CreateWorker, Invoke 0])"
  by (simp add: colon_first_def run_defs inc_defs swr_hit)

lemma colon_second_eval:
  "colon_second =
     (Normal (Some ''tok''),
      \<lparr> options = \<lparr> enableCaching = True, maxRetries = 3, strategy = ''auto'',
                    timeout = 30000, debug = False \<rparr>,
        worker = Some (Worker 1), initialized = True,
        cache = [''hcaptcha:a:b'' \<mapsto> ''tok''],
        stats = \<lparr> total_n = 2, successful = 1, failed = 0, cached = 1 \<rparr> \<rparr>,
      [])"
  by (simp add: colon_second_def colon_first_eval proj_defs run_defs inc_defs)

lemma shipped_hcaptcha_run:
  "solveWithRetry (retries 3) (advancedHCaptchaSolve sitekey rqtoken userAgent) =
     (Normal None, [Invoke 0, Invoke 1, Invoke 2])"
  by (simp add: solveWithRetry_def advancedHCaptchaSolve_def retries_def swr_falsy swr_stop)

section \<open>The claims\<close>

text \<open>
  C1 (amended). When caching is enabled and the cache holds an entry under the key of the
  request, \<open>solve\<close> returns the cached solution with an empty trace (no engine
  initialisation, no strategy call, no delay); the counter of attempts and the counter
  of cache hits each go up by one, and nothing else changes: the counters of successes
  and failures, the cache, the engine fields and the options stay as they were. The
  request token is not part of the key. The claim's increment of the successful counter
  is not what the code does.
\<close>

theorem solve_cache_hit:
  assumes "enableCaching (options s)"
    and "getCacheKey captchaData = Normal k"
    and "cache s k = Some v"
  shows "solve env captchaData userAgent s =
           (Normal (Some v),
            s\<lparr> stats := (stats s)\<lparr> total_n := total_n (stats s) + 1,
                                   cached := cached (stats s) + 1 \<rparr> \<rparr>,
            []) \<and>
         successful (stats (state_of (solve env captchaData userAgent s))) = successful (stats s) \<and>
         failed (stats (state_of (solve env captchaData userAgent s))) = failed (stats s) \<and>
         getCacheKey (Some (d\<lparr> captcha_rqtoken := t \<rparr>)) = getCacheKey (Some d)"
  using assms by (simp add: solve_hit inc_defs proj_defs)

theorem solve_cache_hit_witness:
  "enableCaching (options (state_of sk1_first)) \<and>
   getCacheKey (Some (request ''hcaptcha'' ''sk1'' ''rq-2'')) = Normal ''hcaptcha:sk1'' \<and>
   cache (state_of sk1_first) ''hcaptcha:sk1'' = Some ''sol-A'' \<and>
   result_of sk1_second = Normal (Some ''sol-A'') \<and>
   trace_of sk1_second = [] \<and>
   stats (state_of sk1_second) = \<lparr> total_n = 2, successful = 1, failed = 0, cached = 1 \<rparr>"
proof -
  have h1: "enableCaching (options (state_of sk1_first))"
    by (simp add: sk1_first_eval proj_defs)
  have h2: "getCacheKey (Some (request ''hcaptcha'' ''sk1'' ''rq-2'')) = Normal ''hcaptcha:sk1''"
    by (simp add: request_def)
  have h3: "cache (state_of sk1_first) ''hcaptcha:sk1'' = Some ''sol-A''"
    by (simp add: sk1_first_eval proj_defs)
  from solve_cache_hit [OF h1 h2 h3, of "answering ''sol-B''" "''UA''"]
  have e: "sk1_second =
          (Normal (Some ''sol-A''),
           (state_of sk1_first)\<lparr> stats := (stats (state_of sk1_first))
              \<lparr> total_n := total_n (stats (state_of sk1_first)) + 1,
                cached := cached (stats (state_of sk1_first)) + 1 \<rparr> \<rparr>,
           [])"
    by (simp add: sk1_second_def)
  have "result_of sk1_second = Normal (Some ''sol-A'') \<and> trace_of sk1_second = [] \<and>
    stats (state_of sk1_second) = \<lparr> total_n = 2, successful = 1, failed = 0, cached = 1 \<rparr>"
    unfolding e by (simp add: proj_defs sk1_first_eval)
  with h1 h2 h3 show ?thesis by simp
qed

text \<open>
  The claim as stated fails: after a successful solve for \<open>(hcaptcha, sk1)\<close> a second
  solve for the same key with another request token returns the cached \<open>sol-A\<close> and
  counts a cache hit, but the successful counter stays at 1.
\<close>

theorem solve_cache_hit_successful_counterexample:
  "result_of sk1_second = Normal (Some ''sol-A'') \<and>
   cached (stats (state_of sk1_second)) = cached (stats (state_of sk1_first)) + 1 \<and>
   successful (stats (state_of sk1_first)) = 1 \<and>
   successful (stats (state_of sk1_second)) = 1 \<and>
   successful (stats (state_of sk1_second)) \<noteq> successful (stats (state_of sk1_first)) + 1"
  by (simp add: sk1_first_eval sk1_second_eval proj_defs)

text \<open>
  C2. Every call of \<open>solve\<close> adds exactly one to the counter of attempts, whatever the
  request (null included), the state and the collaborators are: on a cache hit, on a
  solution, on no solution, on an unknown service and when the \<^verbatim>\<open>try\<close> block throws.
\<close>

theorem solve_counts_every_call:
  "total_n (stats (state_of (solve env captchaData userAgent s))) = total_n (stats s) + 1"
  by (rule solve_total)

text \<open>
  C3. \<open>solve\<close> never completes with an exception: for every request, state and behaviour
  of the collaborators its completion is \<open>Normal\<close>, a solution or null. Whenever it
  returns null, the failed counter has gone up by one (and the attempts counter, and
  nothing else in the counters). An exception that leaves the \<^verbatim>\<open>try\<close> block is turned
  into null with one more failure. The faults: a null request, whose property access
  throws inside the \<^verbatim>\<open>try\<close> block, returns null; when no cache entry answers and no
  attempt of either strategy gives a truthy value (each may reject, time out or resolve
  to a falsy value), whatever \<^verbatim>\<open>createWorker\<close> does, \<open>solve\<close> returns null.
\<close>

theorem solve_never_raises:
  "(\<exists>r. result_of (solve env captchaData userAgent s) = Normal r) \<and>
   (result_of (solve env captchaData userAgent s) = Normal None \<longrightarrow>
      stats (state_of (solve env captchaData userAgent s)) =
        (stats s)\<lparr> total_n := total_n (stats s) + 1, failed := failed (stats s) + 1 \<rparr>) \<and>
   (solve_try env captchaData userAgent (inc_total s) = (Throw e, s', tr) \<longrightarrow>
      solve env captchaData userAgent s = (Normal None, inc_failed s', tr)) \<and>
   (captchaData = None \<longrightarrow> result_of (solve env captchaData userAgent s) = Normal None) \<and>
   (captchaData = Some d \<and> \<not> cache_hit s captchaData \<and>
    (\<forall>i. \<not> yields (solveHCaptcha env (captcha_sitekey d) (captcha_rqtoken d) userAgent i)) \<and>
    (\<forall>i. \<not> yields (solveRecaptcha env (captcha_sitekey d) (captcha_rqtoken d) userAgent i)) \<longrightarrow>
      result_of (solve env captchaData userAgent s) = Normal None)"
proof (intro conjI impI)
  show "\<exists>r. result_of (solve env captchaData userAgent s) = Normal r"
    by (rule solve_cases [where cd = captchaData and env = env and ua = userAgent and s = s])
       (simp_all add: proj_defs)
next
  assume r: "result_of (solve env captchaData userAgent s) = Normal None"
  have "\<not> cache_hit s captchaData"
  proof
    assume "cache_hit s captchaData"
    then obtain k v where "enableCaching (options s)" "getCacheKey captchaData = Normal k"
      "cache s k = Some v"
      by (auto simp: cache_hit_def split: completion.splits)
    from solve_hit [OF this] r show False by (simp add: proj_defs)
  qed
  with r show "stats (state_of (solve env captchaData userAgent s)) =
        (stats s)\<lparr> total_n := total_n (stats s) + 1, failed := failed (stats s) + 1 \<rparr>"
    by (simp add: stats_cases)
next
  assume "solve_try env captchaData userAgent (inc_total s) = (Throw e, s', tr)"
  then show "solve env captchaData userAgent s = (Normal None, inc_failed s', tr)"
    by (simp add: solve_def)
next
  assume "captchaData = None"
  then show "result_of (solve env captchaData userAgent s) = Normal None"
    by (simp add: solve_null proj_defs)
next
  assume a: "captchaData = Some d \<and> \<not> cache_hit s captchaData \<and>
    (\<forall>i. \<not> yields (solveHCaptcha env (captcha_sitekey d) (captcha_rqtoken d) userAgent i)) \<and>
    (\<forall>i. \<not> yields (solveRecaptcha env (captcha_sitekey d) (captcha_rqtoken d) userAgent i))"
  define k where "k = captcha_service d @ '':'' @ captcha_sitekey d"
  have gk: "getCacheKey (Some d) = Normal k" by (simp add: k_def)
  from a have "\<not> cache_hit s (Some d)" by auto
  then have m: "\<not> (enableCaching (options s) \<and> cache s k \<noteq> None)"
    unfolding cache_hit_def gk by simp
  have "fst (dispatch env (options s) d userAgent) = Normal None"
    using a swr_exhaust [of 0 "options s"] by (simp add: dispatch_def solveWithRetry_def)
  then obtain tr2 where "dispatch env (options s) d userAgent = (Normal None, tr2)"
    by (cases "dispatch env (options s) d userAgent") simp
  from solve_miss [OF m gk this] a
  show "result_of (solve env captchaData userAgent s) = Normal None"
    by (simp add: proj_defs)
qed

theorem solve_never_raises_witness:
  "\<not> cache_hit (constructor no_options) (Some (request ''hcaptcha'' ''sk1'' ''rq-1'')) \<and>
   (\<forall>i. \<not> yields (solveHCaptcha broken ''sk1'' ''rq-1'' ''UA'' i)) \<and>
   (\<forall>i. \<not> yields (solveRecaptcha broken ''sk1'' ''rq-1'' ''UA'' i)) \<and>
   result_of (solve broken (Some (request ''hcaptcha'' ''sk1'' ''rq-1'')) ''UA''
     (constructor no_options)) = Normal None \<and>
   stats (state_of (solve broken (Some (request ''hcaptcha'' ''sk1'' ''rq-1'')) ''UA''
     (constructor no_options))) = \<lparr> total_n = 1, successful = 0, failed = 1, cached = 0 \<rparr> \<and>
   result_of (solve broken None ''UA'' (constructor no_options)) = Normal None \<and>
   stats (state_of (solve broken None ''UA'' (constructor no_options))) =
     \<lparr> total_n = 1, successful = 0, failed = 1, cached = 0 \<rparr>"
  using solve_never_raises [where env = broken
        and captchaData = "Some (request ''hcaptcha'' ''sk1'' ''rq-1'')" and userAgent = "''UA''"
        and s = "constructor no_options" and d = "request ''hcaptcha'' ''sk1'' ''rq-1''"]
    solve_never_raises [where env = broken and captchaData = None and userAgent = "''UA''"
        and s = "constructor no_options"]
  by (simp add: cache_hit_def broken_def request_def constructor_def no_options_def zero_stats_def)

text \<open>
  C4 (amended). \<open>solveWithRetry\<close> invokes the strategy at most \<open>maxRetries\<close> times and
  never completes with an exception. If attempt \<open>k\<close> is the first to resolve with a
  truthy value (a non-null, non-empty string), that value is returned and the attempts
  made are exactly \<open>0, \<dots>, k\<close>. If no attempt below \<open>maxRetries\<close> resolves with a truthy
  value (each rejects, times out or resolves to null or the empty string), all
  \<open>maxRetries\<close> attempts are made and the result is null, not the last error. The test
  in the code is truthiness, so a non-null empty string does not end the loop.
\<close>

theorem solveWithRetry_first_truthy:
  "length (invocations (snd (solveWithRetry opts solveFn))) \<le> maxRetries opts \<and>
   (\<exists>r. fst (solveWithRetry opts solveFn) = Normal r) \<and>
   (k < maxRetries opts \<and> solveFn k = Resolves v \<and> truthy v \<and>
    (\<forall>j. j < k \<longrightarrow> \<not> yields (solveFn j)) \<longrightarrow>
      fst (solveWithRetry opts solveFn) = Normal v \<and>
      invocations (snd (solveWithRetry opts solveFn)) = [0..<Suc k]) \<and>
   ((\<forall>j. j < maxRetries opts \<longrightarrow> \<not> yields (solveFn j)) \<longrightarrow>
      fst (solveWithRetry opts solveFn) = Normal None \<and>
      invocations (snd (solveWithRetry opts solveFn)) = [0..<maxRetries opts])"
proof (intro conjI impI)
  show "length (invocations (snd (solveWithRetry opts solveFn))) \<le> maxRetries opts"
    using swr_count [of opts solveFn 0] by (simp add: solveWithRetry_def)
next
  show "\<exists>r. fst (solveWithRetry opts solveFn) = Normal r"
    using swr_normal [of opts solveFn 0] by (auto simp: solveWithRetry_def)
next
  assume a: "k < maxRetries opts \<and> solveFn k = Resolves v \<and> truthy v \<and>
    (\<forall>j. j < k \<longrightarrow> \<not> yields (solveFn j))"
  then have "solveWithRetry_from opts solveFn 0 =
        (Normal v, snd (solveWithRetry_from opts solveFn 0)) \<and>
      invocations (snd (solveWithRetry_from opts solveFn 0)) = [0..<Suc k]"
    by (intro swr_first) simp_all
  then show "fst (solveWithRetry opts solveFn) = Normal v"
    and "invocations (snd (solveWithRetry opts solveFn)) = [0..<Suc k]"
    by (simp_all add: solveWithRetry_def prod_eq_iff)
next
  assume "\<forall>j. j < maxRetries opts \<longrightarrow> \<not> yields (solveFn j)"
  then have "fst (solveWithRetry_from opts solveFn 0) = Normal None \<and>
      invocations (snd (solveWithRetry_from opts solveFn 0)) = [0..<maxRetries opts]"
    by (intro swr_exhaust) simp
  then show "fst (solveWithRetry opts solveFn) = Normal None"
    and "invocations (snd (solveWithRetry opts solveFn)) = [0..<maxRetries opts]"
    by (simp_all add: solveWithRetry_def)
qed

theorem solveWithRetry_first_truthy_witness:
  "(1::nat) < maxRetries (retries 3) \<and> second_time 1 = Resolves (Some ''tok'') \<and>
   truthy (Some ''tok'') \<and> \<not> yields (second_time 0) \<and>
   fst (solveWithRetry (retries 3) second_time) = Normal (Some ''tok'') \<and>
   invocations (snd (solveWithRetry (retries 3) second_time)) = [0, 1] \<and>
   (\<forall>j. \<not> yields (never_settles j)) \<and>
   fst (solveWithRetry (retries 3) never_settles) = Normal None \<and>
   invocations (snd (solveWithRetry (retries 3) never_settles)) = [0, 1, 2]"
  using solveWithRetry_first_truthy [of "retries 3" second_time 1 "Some ''tok''"]
    solveWithRetry_first_truthy [of "retries 3" never_settles]
  by (simp add: retries_def second_time_def never_settles_def upt_rec)

text \<open>
  The claim as stated fails: with \<open>maxRetries = 3\<close>, a strategy whose first attempt
  resolves with the empty string (a non-null result) and whose later attempts resolve
  with \<open>tok\<close> is invoked twice, and \<open>tok\<close> is returned.
\<close>

theorem solveWithRetry_non_null_counterexample:
  "empty_then_token 0 = Resolves (Some []) \<and> Some [] \<noteq> (None :: string option) \<and>
   solveWithRetry (retries 3) empty_then_token = (Normal (Some ''tok''), [Invoke 0, Invoke 1])"
  by (simp add: solveWithRetry_def empty_then_token_def retries_def swr_hit swr_falsy)

text \<open>
  C5. The delay after a failed attempt \<open>i\<close> (zero-based) that is not the last is
  \<open>backoff i = min (1000 * 2 ^ i) 10000\<close> milliseconds: 1000, 2000, 4000, 8000, then
  10000 from index 4 on. In every run the delays slept are exactly the backoffs of the
  attempts that rejected or timed out and had a successor, in order. For a strategy
  that fails at every attempt, all \<open>maxRetries\<close> attempts are made, the delays are
  \<open>backoff 0, \<dots>, backoff (maxRetries - 2)\<close>, each between two attempts, and the result
  is null; with \<open>maxRetries = 4\<close> that is four attempts with 1000, 2000 and 4000
  between them.
\<close>

theorem solveWithRetry_backoff:
  "backoff i = min (1000 * 2 ^ i) 10000 \<and>
   map backoff [0..<6] = [1000, 2000, 4000, 8000, 10000, 10000] \<and>
   (4 \<le> i \<longrightarrow> backoff i = 10000) \<and>
   delays (snd (solveWithRetry opts solveFn)) =
     map backoff
       (filter (\<lambda>j. fails (solveFn j) \<and> j + 1 < maxRetries opts)
          [0..<length (invocations (snd (solveWithRetry opts solveFn)))]) \<and>
   ((\<forall>j. j < maxRetries opts \<longrightarrow> fails (solveFn j)) \<longrightarrow>
      fst (solveWithRetry opts solveFn) = Normal None \<and>
      invocations (snd (solveWithRetry opts solveFn)) = [0..<maxRetries opts] \<and>
      delays (snd (solveWithRetry opts solveFn)) = map backoff [0..<maxRetries opts - 1] \<and>
      snd (solveWithRetry opts solveFn) =
        concat (map (\<lambda>j. Invoke j # (if j + 1 < maxRetries opts then [Sleep (backoff j)] else []))
                  [0..<maxRetries opts])) \<and>
   ((\<forall>j. j < maxRetries opts \<longrightarrow> fails (solveFn j)) \<and> maxRetries opts = 4 \<longrightarrow>
      snd (solveWithRetry opts solveFn) =
        [Invoke 0, Sleep 1000, Invoke 1, Sleep 2000, Invoke 2, Sleep 4000, Invoke 3])"
proof -
  let ?tr = "snd (solveWithRetry opts solveFn)"
  let ?n = "maxRetries opts"
  have tr: "?tr = concat (map (slot opts solveFn) [0..<length (invocations ?tr)])"
    using swr_trace [of opts solveFn 0] by (simp add: solveWithRetry_def)
  have d: "delays ?tr = map backoff
       (filter (\<lambda>j. fails (solveFn j) \<and> j + 1 < ?n) [0..<length (invocations ?tr)])"
    by (subst tr) (rule delays_slots)
  have allfail: "fst (solveWithRetry opts solveFn) = Normal None \<and>
      invocations ?tr = [0..<?n] \<and>
      delays ?tr = map backoff [0..<?n - 1] \<and>
      ?tr = concat (map (\<lambda>j. Invoke j # (if j + 1 < ?n then [Sleep (backoff j)] else [])) [0..<?n])"
    if f: "\<forall>j. j < ?n \<longrightarrow> fails (solveFn j)"
  proof -
    have ny: "\<forall>j. 0 \<le> j \<and> j < ?n \<longrightarrow> \<not> yields (solveFn j)"
    proof (intro allI impI)
      fix j assume "0 \<le> j \<and> j < ?n"
      with f have "fails (solveFn j)" by simp
      then show "\<not> yields (solveFn j)" by (cases "solveFn j") simp_all
    qed
    from swr_exhaust [OF ny]
    have r: "fst (solveWithRetry opts solveFn) = Normal None" and inv: "invocations ?tr = [0..<?n]"
      by (simp_all add: solveWithRetry_def)
    have len: "length (invocations ?tr) = ?n" by (simp add: inv)
    have "map (slot opts solveFn) [0..<?n] =
        map (\<lambda>j. Invoke j # (if j + 1 < ?n then [Sleep (backoff j)] else [])) [0..<?n]"
      using f by (simp add: slot_def)
    with tr len
    have t: "?tr = concat (map (\<lambda>j. Invoke j # (if j + 1 < ?n then [Sleep (backoff j)] else [])) [0..<?n])"
      by simp
    have "filter (\<lambda>j. fails (solveFn j) \<and> j + 1 < ?n) [0..<?n] = filter (\<lambda>j. j < ?n - 1) [0..<?n]"
      using f by (intro filter_cong) auto
    also have "\<dots> = [0..<?n - 1]"
      by (simp add: filter_less_upt)
    finally have "delays ?tr = map backoff [0..<?n - 1]" using d len by simp
    with r inv t show ?thesis by simp
  qed
  have four: "?tr = [Invoke 0, Sleep 1000, Invoke 1, Sleep 2000, Invoke 2, Sleep 4000, Invoke 3]"
    if f: "(\<forall>j. j < ?n \<longrightarrow> fails (solveFn j)) \<and> ?n = 4"
  proof -
    from f allfail have "?tr =
        concat (map (\<lambda>j. Invoke j # (if j + 1 < ?n then [Sleep (backoff j)] else [])) [0..<?n])"
      by simp
    also have "\<dots> = [Invoke 0, Sleep 1000, Invoke 1, Sleep 2000, Invoke 2, Sleep 4000, Invoke 3]"
      using f by (simp add: upt_rec backoff_def)
    finally show ?thesis .
  qed
  have p1: "backoff i = min (1000 * 2 ^ i) 10000" by (simp add: backoff_def)
  have p3: "4 \<le> i \<longrightarrow> backoff i = 10000" using backoff_cap by blast
  have p5: "(\<forall>j. j < ?n \<longrightarrow> fails (solveFn j)) \<longrightarrow>
      fst (solveWithRetry opts solveFn) = Normal None \<and>
      invocations ?tr = [0..<?n] \<and>
      delays ?tr = map backoff [0..<?n - 1] \<and>
      ?tr = concat (map (\<lambda>j. Invoke j # (if j + 1 < ?n then [Sleep (backoff j)] else [])) [0..<?n])"
    using allfail by blast
  have p6: "(\<forall>j. j < ?n \<longrightarrow> fails (solveFn j)) \<and> ?n = 4 \<longrightarrow>
      ?tr = [Invoke 0, Sleep 1000, Invoke 1, Sleep 2000, Invoke 2, Sleep 4000, Invoke 3]"
    using four by blast
  show ?thesis
    by (rule conjI [OF p1 conjI [OF backoff_values conjI [OF p3 conjI [OF d conjI [OF p5 p6]]]]])
qed

theorem solveWithRetry_backoff_witness:
  "(4::nat) \<le> 7 \<and> backoff 7 = 10000 \<and>
   (\<forall>j. fails (always_rejects j)) \<and> maxRetries (retries 4) = 4 \<and>
   solveWithRetry (retries 4) always_rejects =
     (Normal None, [Invoke 0, Sleep 1000, Invoke 1, Sleep 2000, Invoke 2, Sleep 4000, Invoke 3]) \<and>
   (\<forall>j. fails (never_settles j)) \<and>
   invocations (snd (solveWithRetry (retries 6) never_settles)) = [0, 1, 2, 3, 4, 5] \<and>
   delays (snd (solveWithRetry (retries 6) never_settles)) = [1000, 2000, 4000, 8000, 10000]"
proof -
  have a: "\<forall>j. fails (always_rejects j)" by (simp add: always_rejects_def)
  have n: "\<forall>j. fails (never_settles j)" by (simp add: never_settles_def)
  have m: "maxRetries (retries 4) = 4" "maxRetries (retries 6) = 6" by (simp_all add: retries_def)
  from a have a': "\<forall>j. j < maxRetries (retries 4) \<longrightarrow> fails (always_rejects j)" by simp
  from n have n': "\<forall>j. j < maxRetries (retries 6) \<longrightarrow> fails (never_settles j)" by simp
  have s: "(4::nat) \<le> 7" by simp
  from solveWithRetry_backoff [of 7 "retries 4" always_rejects] a' m(1) s
  have 1: "backoff 7 = 10000" "fst (solveWithRetry (retries 4) always_rejects) = Normal None"
    "snd (solveWithRetry (retries 4) always_rejects) =
       [Invoke 0, Sleep 1000, Invoke 1, Sleep 2000, Invoke 2, Sleep 4000, Invoke 3]"
    by blast+
  from solveWithRetry_backoff [of 7 "retries 6" never_settles] n'
  have 2: "invocations (snd (solveWithRetry (retries 6) never_settles)) = [0..<6]"
    "delays (snd (solveWithRetry (retries 6) never_settles)) = map backoff [0..<6 - 1]"
    unfolding m(2) by blast+
  have 3: "map backoff [0..<6 - 1] = [1000, 2000, 4000, 8000, 10000]" "[0..<6] = [0, 1, 2, 3, 4, 5::nat]"
    by (simp_all add: upt_rec backoff_def)
  from 1 2 3 a n m show ?thesis by (simp add: prod_eq_iff)
qed

text \<open>
  C6 (amended). For a request whose service is neither \<open>hcaptcha\<close> nor \<open>recaptcha\<close> and
  for which the cache test misses (caching disabled, or no entry under
  \<open>service:sitekey\<close>), \<open>solve\<close> returns null, calls no strategy and sleeps for no
  backoff delay (the only possible event is the engine start of a solver not yet
  initialised), adds one to the attempts counter and one to the failed counter, changes
  no other counter and leaves the cache as it was. In a state reached from the
  constructor by public operations the cache test misses whenever the key
  \<open>service:sitekey\<close> does not begin with \<open>hcaptcha:\<close> or \<open>recaptcha:\<close>. Without the
  cache miss the claim fails: the cache key is the concatenation \<open>service:sitekey\<close>,
  and an unknown service can meet the entry of a known one.
\<close>

theorem solve_unknown_service:
  assumes "captcha_service d \<noteq> ''hcaptcha''"
    and "captcha_service d \<noteq> ''recaptcha''"
    and "\<not> cache_hit s (Some d) \<or>
         (s = run ops (constructor a) \<and>
          \<not> known_key (captcha_service d @ '':'' @ captcha_sitekey d))"
  shows "result_of (solve env (Some d) userAgent s) = Normal None \<and>
         invocations (trace_of (solve env (Some d) userAgent s)) = [] \<and>
         delays (trace_of (solve env (Some d) userAgent s)) = [] \<and>
         trace_of (solve env (Some d) userAgent s) = (if initialized s then [] else [CreateWorker]) \<and>
         stats (state_of (solve env (Some d) userAgent s)) =
           (stats s)\<lparr> total_n := total_n (stats s) + 1, failed := failed (stats s) + 1 \<rparr> \<and>
         cache (state_of (solve env (Some d) userAgent s)) = cache s"
proof -
  define k where "k = captcha_service d @ '':'' @ captcha_sitekey d"
  have gk: "getCacheKey (Some d) = Normal k" by (simp add: k_def)
  from assms(3) have miss: "\<not> cache_hit s (Some d)"
    using unknown_key_miss by blast
  then have m: "\<not> (enableCaching (options s) \<and> cache s k \<noteq> None)"
    unfolding cache_hit_def gk by simp
  have e: "solve env (Some d) userAgent s =
      (Normal None, finish k None (fst (initialize env (inc_total s))),
       snd (initialize env (inc_total s)) @ [])"
    by (rule solve_miss [OF m gk dispatch_unknown [OF assms(1,2)]])
  have t: "snd (initialize env (inc_total s)) = (if initialized s then [] else [CreateWorker])"
    by (simp add: initialize_def inc_defs split: completion.splits)
  have c: "cache (finish k None (fst (initialize env (inc_total s)))) = cache s"
    by (simp add: finish_cache initialize_frame) (simp add: inc_total_def)
  have st: "stats (finish k None (fst (initialize env (inc_total s)))) =
      (stats s)\<lparr> total_n := total_n (stats s) + 1, failed := failed (stats s) + 1 \<rparr>"
    by (simp add: finish_stats initialize_frame inc_defs)
  show ?thesis unfolding e by (simp add: proj_defs t c st)
qed

theorem solve_unknown_service_witness:
  "captcha_service (request ''turnstile'' ''sk1'' ''rq-3'') \<noteq> ''hcaptcha'' \<and>
   captcha_service (request ''turnstile'' ''sk1'' ''rq-3'') \<noteq> ''recaptcha'' \<and>
   state_of sk1_first =
     run [Solve (answering ''sol-A'') (Some (request ''hcaptcha'' ''sk1'' ''rq-1'')) ''UA'']
       (constructor no_options) \<and>
   \<not> known_key (captcha_service (request ''turnstile'' ''sk1'' ''rq-3'') @ '':'' @
                  captcha_sitekey (request ''turnstile'' ''sk1'' ''rq-3'')) \<and>
   \<not> cache_hit (state_of sk1_first) (Some (request ''turnstile'' ''sk1'' ''rq-3'')) \<and>
   result_of (solve (answering ''tok'') (Some (request ''turnstile'' ''sk1'' ''rq-3'')) ''UA''
     (state_of sk1_first)) = Normal None \<and>
   trace_of (solve (answering ''tok'') (Some (request ''turnstile'' ''sk1'' ''rq-3'')) ''UA''
     (state_of sk1_first)) = [] \<and>
   stats (state_of (solve (answering ''tok'') (Some (request ''turnstile'' ''sk1'' ''rq-3'')) ''UA''
     (state_of sk1_first))) = \<lparr> total_n = 2, successful = 1, failed = 1, cached = 0 \<rparr>"
proof -
  have h1: "captcha_service (request ''turnstile'' ''sk1'' ''rq-3'') \<noteq> ''hcaptcha''"
    and h2: "captcha_service (request ''turnstile'' ''sk1'' ''rq-3'') \<noteq> ''recaptcha''"
    by (simp_all add: request_def)
  have r: "state_of sk1_first =
     run [Solve (answering ''sol-A'') (Some (request ''hcaptcha'' ''sk1'' ''rq-1'')) ''UA'']
       (constructor no_options)"
    by (simp add: sk1_first_def)
  have u: "\<not> known_key (captcha_service (request ''turnstile'' ''sk1'' ''rq-3'') @ '':'' @
                  captcha_sitekey (request ''turnstile'' ''sk1'' ''rq-3''))"
    by (simp add: known_key_def request_def)
  have h3: "\<not> cache_hit (state_of sk1_first) (Some (request ''turnstile'' ''sk1'' ''rq-3''))"
    by (simp add: cache_hit_def request_def sk1_first_eval proj_defs)
  from r u have h: "\<not> cache_hit (state_of sk1_first) (Some (request ''turnstile'' ''sk1'' ''rq-3'')) \<or>
         (state_of sk1_first =
            run [Solve (answering ''sol-A'') (Some (request ''hcaptcha'' ''sk1'' ''rq-1'')) ''UA'']
              (constructor no_options) \<and>
          \<not> known_key (captcha_service (request ''turnstile'' ''sk1'' ''rq-3'') @ '':'' @
                  captcha_sitekey (request ''turnstile'' ''sk1'' ''rq-3'')))"
    by blast
  have st: "stats (state_of sk1_first) = \<lparr> total_n = 1, successful = 1, failed = 0, cached = 0 \<rparr>"
    "initialized (state_of sk1_first)"
    by (simp_all add: sk1_first_eval proj_defs)
  from solve_unknown_service [OF h1 h2 h, of "answering ''tok''" "''UA''"]
  have "result_of (solve (answering ''tok'') (Some (request ''turnstile'' ''sk1'' ''rq-3'')) ''UA''
     (state_of sk1_first)) = Normal None \<and>
   trace_of (solve (answering ''tok'') (Some (request ''turnstile'' ''sk1'' ''rq-3'')) ''UA''
     (state_of sk1_first)) = [] \<and>
   stats (state_of (solve (answering ''tok'') (Some (request ''turnstile'' ''sk1'' ''rq-3'')) ''UA''
     (state_of sk1_first))) = \<lparr> total_n = 2, successful = 1, failed = 1, cached = 0 \<rparr>"
    by (simp add: st)
  with h1 h2 r u h3 show ?thesis by blast
qed

text \<open>
  The claim as stated fails: after a successful solve for service \<open>hcaptcha\<close> with site
  key \<open>a:b\<close>, a solve for the service \<open>hcaptcha:a\<close> with site key \<open>b\<close> has the same
  cache key \<open>hcaptcha:a:b\<close>; it returns the cached token, not null, and counts a cache
  hit, not a failure.
\<close>

theorem solve_unknown_service_counterexample:
  "captcha_service (request ''hcaptcha:a'' ''b'' ''rq-2'') \<noteq> ''hcaptcha'' \<and>
   captcha_service (request ''hcaptcha:a'' ''b'' ''rq-2'') \<noteq> ''recaptcha'' \<and>
   result_of colon_second = Normal (Some ''tok'') \<and>
   result_of colon_second \<noteq> Normal None \<and>
   failed (stats (state_of colon_first)) = 0 \<and>
   failed (stats (state_of colon_second)) = 0 \<and>
   failed (stats (state_of colon_second)) \<noteq> failed (stats (state_of colon_first)) + 1"
  by (simp add: colon_first_eval colon_second_eval proj_defs request_def)

text \<open>
  C7. \<open>getStats\<close> reports the two rates as the sentinel \<open>N/A\<close> exactly when the counter
  of attempts is 0. Otherwise the success rate is \<^verbatim>\<open>((successful / total) * 100).toFixed(2)\<close>
  followed by \<open>%\<close> and the cache hit rate is \<^verbatim>\<open>((cached / total) * 100).toFixed(2)\<close>
  followed by \<open>%\<close>, computed in binary64: each is a decimal numeral with exactly two
  decimals, \<open>h\<close> hundredths, that differs from the percentage \<open>100 * x / total\<close> by at
  most half a hundredth plus the rounding error of the two floating-point operations.
  The four counters are reported as they are.
\<close>

theorem getStats_sentinel:
  "(successRate (getStats s) = ''N/A'' \<longleftrightarrow> total_n (stats s) = 0) \<and>
   (cacheHitRate (getStats s) = ''N/A'' \<longleftrightarrow> total_n (stats s) = 0) \<and>
   (total_n (stats s) \<noteq> 0 \<longrightarrow>
      successRate (getStats s) =
        toFixed 2 (mul64 (div64 (successful (stats s)) (total_n (stats s))) 100) @ ''%'' \<and>
      cacheHitRate (getStats s) =
        toFixed 2 (mul64 (div64 (cached (stats s)) (total_n (stats s))) 100) @ ''%'' \<and>
      (\<exists>h. successRate (getStats s) =
              decimal (h div 100) @ ''.'' @ [digit (h mod 100 div 10), digit (h mod 10)] @ ''%'' \<and>
            \<bar>real h / 100 - 100 * (real (successful (stats s)) / real (total_n (stats s)))\<bar>
              \<le> 1 / 200 + 100 * (real (successful (stats s)) / real (total_n (stats s))) / 2 ^ 51) \<and>
      (\<exists>h. cacheHitRate (getStats s) =
              decimal (h div 100) @ ''.'' @ [digit (h mod 100 div 10), digit (h mod 10)] @ ''%'' \<and>
            \<bar>real h / 100 - 100 * (real (cached (stats s)) / real (total_n (stats s)))\<bar>
              \<le> 1 / 200 + 100 * (real (cached (stats s)) / real (total_n (stats s))) / 2 ^ 51)) \<and>
   r_total (getStats s) = total_n (stats s) \<and>
   r_successful (getStats s) = successful (stats s) \<and>
   r_failed (getStats s) = failed (stats s) \<and>
   r_cached (getStats s) = cached (stats s)"
proof -
  let ?t = "total_n (stats s)"
  let ?su = "toFixed 2 (mul64 (div64 (successful (stats s)) ?t) 100)"
  let ?ca = "toFixed 2 (mul64 (div64 (cached (stats s)) ?t) 100)"
  have p1: "successRate (getStats s) = ''N/A'' \<longleftrightarrow> ?t = 0"
    using percent_not_sentinel [of ?su] by (simp add: getStats_def)
  have p2: "cacheHitRate (getStats s) = ''N/A'' \<longleftrightarrow> ?t = 0"
    using percent_not_sentinel [of ?ca] by (simp add: getStats_def)
  have p3: "?t \<noteq> 0 \<longrightarrow>
      successRate (getStats s) = ?su @ ''%'' \<and>
      cacheHitRate (getStats s) = ?ca @ ''%'' \<and>
      (\<exists>h. successRate (getStats s) =
              decimal (h div 100) @ ''.'' @ [digit (h mod 100 div 10), digit (h mod 10)] @ ''%'' \<and>
            \<bar>real h / 100 - 100 * (real (successful (stats s)) / real ?t)\<bar>
              \<le> 1 / 200 + 100 * (real (successful (stats s)) / real ?t) / 2 ^ 51) \<and>
      (\<exists>h. cacheHitRate (getStats s) =
              decimal (h div 100) @ ''.'' @ [digit (h mod 100 div 10), digit (h mod 10)] @ ''%'' \<and>
            \<bar>real h / 100 - 100 * (real (cached (stats s)) / real ?t)\<bar>
              \<le> 1 / 200 + 100 * (real (cached (stats s)) / real ?t) / 2 ^ 51)"
  proof
    assume "?t \<noteq> 0"
    then have t: "0 < ?t" by simp
    have s1: "successRate (getStats s) = ?su @ ''%''" using t by (simp add: getStats_def)
    have s2: "cacheHitRate (getStats s) = ?ca @ ''%''" using t by (simp add: getStats_def)
    from rate_string [OF t, of "successful (stats s)"] obtain h where
      "?su = hundredths_string h"
      "\<bar>real h / 100 - 100 * (real (successful (stats s)) / real ?t)\<bar>
              \<le> 1 / 200 + 100 * (real (successful (stats s)) / real ?t) / 2 ^ 51"
      by blast
    then have e1: "\<exists>h. successRate (getStats s) =
              decimal (h div 100) @ ''.'' @ [digit (h mod 100 div 10), digit (h mod 10)] @ ''%'' \<and>
            \<bar>real h / 100 - 100 * (real (successful (stats s)) / real ?t)\<bar>
              \<le> 1 / 200 + 100 * (real (successful (stats s)) / real ?t) / 2 ^ 51"
      unfolding s1 by (intro exI [of _ h]) (simp add: hundredths_string_def)
    from rate_string [OF t, of "cached (stats s)"] obtain h where
      "?ca = hundredths_string h"
      "\<bar>real h / 100 - 100 * (real (cached (stats s)) / real ?t)\<bar>
              \<le> 1 / 200 + 100 * (real (cached (stats s)) / real ?t) / 2 ^ 51"
      by blast
    then have e2: "\<exists>h. cacheHitRate (getStats s) =
              decimal (h div 100) @ ''.'' @ [digit (h mod 100 div 10), digit (h mod 10)] @ ''%'' \<and>
            \<bar>real h / 100 - 100 * (real (cached (stats s)) / real ?t)\<bar>
              \<le> 1 / 200 + 100 * (real (cached (stats s)) / real ?t) / 2 ^ 51"
      unfolding s2 by (intro exI [of _ h]) (simp add: hundredths_string_def)
    show "successRate (getStats s) = ?su @ ''%'' \<and>
      cacheHitRate (getStats s) = ?ca @ ''%'' \<and>
      (\<exists>h. successRate (getStats s) =
              decimal (h div 100) @ ''.'' @ [digit (h mod 100 div 10), digit (h mod 10)] @ ''%'' \<and>
            \<bar>real h / 100 - 100 * (real (successful (stats s)) / real ?t)\<bar>
              \<le> 1 / 200 + 100 * (real (successful (stats s)) / real ?t) / 2 ^ 51) \<and>
      (\<exists>h. cacheHitRate (getStats s) =
              decimal (h div 100) @ ''.'' @ [digit (h mod 100 div 10), digit (h mod 10)] @ ''%'' \<and>
            \<bar>real h / 100 - 100 * (real (cached (stats s)) / real ?t)\<bar>
              \<le> 1 / 200 + 100 * (real (cached (stats s)) / real ?t) / 2 ^ 51)"
      by (rule conjI [OF s1 conjI [OF s2 conjI [OF e1 e2]]])
  qed
  have p4: "r_total (getStats s) = ?t \<and>
   r_successful (getStats s) = successful (stats s) \<and>
   r_failed (getStats s) = failed (stats s) \<and>
   r_cached (getStats s) = cached (stats s)"
    by (simp add: getStats_def)
  show ?thesis by (rule conjI [OF p1 conjI [OF p2 conjI [OF p3 p4]]])
qed

theorem getStats_sentinel_witness:
  "total_n (stats (counted 160 23 130 7)) \<noteq> 0 \<and>
   successRate (getStats (counted 160 23 130 7)) = ''14.37%'' \<and>
   cacheHitRate (getStats (counted 160 23 130 7)) = ''4.38%'' \<and>
   total_n (stats (counted 4000 5 3995 0)) \<noteq> 0 \<and>
   successRate (getStats (counted 4000 5 3995 0)) = ''0.13%'' \<and>
   cacheHitRate (getStats (counted 4000 5 3995 0)) = ''0.00%'' \<and>
   total_n (stats (counted 6 2 0 4)) \<noteq> 0 \<and>
   successRate (getStats (counted 6 2 0 4)) = ''33.33%'' \<and>
   cacheHitRate (getStats (counted 6 2 0 4)) = ''66.67%'' \<and>
   total_n (stats (state_of sk1_second)) \<noteq> 0 \<and>
   successRate (getStats (state_of sk1_second)) = ''50.00%'' \<and>
   cacheHitRate (getStats (state_of sk1_second)) = ''50.00%'' \<and>
   r_total (getStats (state_of sk1_second)) = 2 \<and>
   total_n (stats (constructor no_options)) = 0 \<and>
   successRate (getStats (constructor no_options)) = ''N/A'' \<and>
   cacheHitRate (getStats (constructor no_options)) = ''N/A''"
proof -
  have c: "stats (counted 160 23 130 7) = \<lparr> total_n = 160, successful = 23, failed = 130, cached = 7 \<rparr>"
    "stats (counted 4000 5 3995 0) = \<lparr> total_n = 4000, successful = 5, failed = 3995, cached = 0 \<rparr>"
    "stats (counted 6 2 0 4) = \<lparr> total_n = 6, successful = 2, failed = 0, cached = 4 \<rparr>"
    by (simp_all add: counted_def)
  have st: "stats (state_of sk1_second) = \<lparr> total_n = 2, successful = 1, failed = 0, cached = 1 \<rparr>"
    by (simp add: sk1_second_eval proj_defs)
  have z: "total_n (stats (constructor no_options)) = 0"
    by (simp add: constructor_def zero_stats_def)
  from getStats_sentinel [of "counted 160 23 130 7"]
  have 1: "successRate (getStats (counted 160 23 130 7)) = ''14.37%''"
    "cacheHitRate (getStats (counted 160 23 130 7)) = ''4.38%''"
    unfolding c by (simp_all add: rate_23_160 rate_7_160)
  from getStats_sentinel [of "counted 4000 5 3995 0"]
  have 2: "successRate (getStats (counted 4000 5 3995 0)) = ''0.13%''"
    "cacheHitRate (getStats (counted 4000 5 3995 0)) = ''0.00%''"
    unfolding c by (simp_all add: rate_5_4000 rate_0_4000)
  from getStats_sentinel [of "counted 6 2 0 4"]
  have 3: "successRate (getStats (counted 6 2 0 4)) = ''33.33%''"
    "cacheHitRate (getStats (counted 6 2 0 4)) = ''66.67%''"
    unfolding c by (simp_all add: rate_2_6 rate_4_6)
  from getStats_sentinel [of "state_of sk1_second"]
  have 4: "successRate (getStats (state_of sk1_second)) = ''50.00%''"
    "cacheHitRate (getStats (state_of sk1_second)) = ''50.00%''"
    "r_total (getStats (state_of sk1_second)) = 2"
    unfolding st by (simp_all add: rate_1_2)
  from getStats_sentinel [of "constructor no_options"] z
  have 5: "successRate (getStats (constructor no_options)) = ''N/A''"
    "cacheHitRate (getStats (constructor no_options)) = ''N/A''"
    by simp_all
  from 1 2 3 4 5 z show ?thesis by (simp add: c st)
qed

text \<open>
  C8. \<open>clearCache\<close> empties the cache and leaves the four counters (and every other
  field) as they were; \<open>resetStats\<close> sets the four counters to zero and leaves the cache
  (and every other field) as it was.
\<close>

theorem clearCache_resetStats_independent:
  "cache (clearCache s) = Map.empty \<and> stats (clearCache s) = stats s \<and>
   options (clearCache s) = options s \<and> worker (clearCache s) = worker s \<and>
   initialized (clearCache s) = initialized s \<and>
   total_n (stats (resetStats s)) = 0 \<and> successful (stats (resetStats s)) = 0 \<and>
   failed (stats (resetStats s)) = 0 \<and> cached (stats (resetStats s)) = 0 \<and>
   cache (resetStats s) = cache s \<and>
   options (resetStats s) = options s \<and> worker (resetStats s) = worker s \<and>
   initialized (resetStats s) = initialized s"
  by (simp add: clearCache_def resetStats_def zero_stats_def)

text \<open>
  C9. In every state reached from the constructor by public operations, \<open>cleanup\<close>
  terminates the worker if there is one (and calls nothing otherwise), sets the worker
  to null, resets the initialized flag, empties the cache, and leaves the four counters
  and the options as they were. A later \<open>solve\<close> with a request starts the engine again:
  its trace begins with the creation of a worker, and if that creation succeeds the
  solver holds the new worker and is initialized.
\<close>

theorem cleanup_resets_engine:
  assumes "s = run ops (constructor a)"
  shows "worker (fst (cleanup s)) = None \<and>
         \<not> initialized (fst (cleanup s)) \<and>
         cache (fst (cleanup s)) = Map.empty \<and>
         stats (fst (cleanup s)) = stats s \<and>
         options (fst (cleanup s)) = options s \<and>
         snd (cleanup s) = (case worker s of Some w \<Rightarrow> [Terminate w] | None \<Rightarrow> []) \<and>
         (\<exists>tr. trace_of (solve env (Some d) userAgent (fst (cleanup s))) = CreateWorker # tr) \<and>
         (createWorker env = Normal w \<longrightarrow>
            worker (state_of (solve env (Some d) userAgent (fst (cleanup s)))) = Some w \<and>
            initialized (state_of (solve env (Some d) userAgent (fst (cleanup s)))))"
proof -
  have e: "engine_inv s" unfolding assms by (rule reachable_engine)
  note c = cleanup_fields [OF e]
  from solve_fresh_trace [OF c(2) c(3), of env d userAgent]
  obtain tr where t: "solve env (Some d) userAgent (fst (cleanup s)) =
      (fst (solve env (Some d) userAgent (fst (cleanup s))),
       finish (captcha_service d @ '':'' @ captcha_sitekey d)
         (case fst (solve env (Some d) userAgent (fst (cleanup s))) of
            Normal r \<Rightarrow> r | Throw e \<Rightarrow> None)
         (case createWorker env of
            Normal w \<Rightarrow> (inc_total (fst (cleanup s)))\<lparr> worker := Some w, initialized := True \<rparr>
          | Throw e \<Rightarrow> inc_total (fst (cleanup s))),
       CreateWorker # tr)"
    by blast
  have p7: "\<exists>tr. trace_of (solve env (Some d) userAgent (fst (cleanup s))) = CreateWorker # tr"
    by (subst t) (simp add: trace_of_def)
  have p8: "createWorker env = Normal w \<longrightarrow>
            worker (state_of (solve env (Some d) userAgent (fst (cleanup s)))) = Some w \<and>
            initialized (state_of (solve env (Some d) userAgent (fst (cleanup s))))"
  proof
    assume w: "createWorker env = Normal w"
    show "worker (state_of (solve env (Some d) userAgent (fst (cleanup s)))) = Some w \<and>
            initialized (state_of (solve env (Some d) userAgent (fst (cleanup s))))"
      by (subst t, subst (2) t) (simp add: state_of_def finish_engine w)
  qed
  show ?thesis
    by (rule conjI [OF c(1) conjI [OF c(2) conjI [OF c(3) conjI [OF c(4) conjI [OF c(5)
          conjI [OF c(6) conjI [OF p7 p8]]]]]]])
qed

theorem cleanup_resets_engine_witness:
  "state_of sk1_first =
     run [Solve (answering ''sol-A'') (Some (request ''hcaptcha'' ''sk1'' ''rq-1'')) ''UA'']
       (constructor no_options) \<and>
   worker (state_of sk1_first) = Some (Worker 1) \<and>
   initialized (state_of sk1_first) \<and>
   cache (state_of sk1_first) ''hcaptcha:sk1'' = Some ''sol-A'' \<and>
   worker (fst (cleanup (state_of sk1_first))) = None \<and>
   \<not> initialized (fst (cleanup (state_of sk1_first))) \<and>
   cache (fst (cleanup (state_of sk1_first))) = Map.empty \<and>
   stats (fst (cleanup (state_of sk1_first))) =
     \<lparr> total_n = 1, successful = 1, failed = 0, cached = 0 \<rparr> \<and>
   snd (cleanup (state_of sk1_first)) = [Terminate (Worker 1)] \<and>
   createWorker (answering ''sol-C'') = Normal (Worker 1) \<and>
   worker (state_of (solve (answering ''sol-C'') (Some (request ''hcaptcha'' ''sk1'' ''rq-4''))
     ''UA'' (fst (cleanup (state_of sk1_first))))) = Some (Worker 1) \<and>
   initialized (state_of (solve (answering ''sol-C'') (Some (request ''hcaptcha'' ''sk1'' ''rq-4''))
     ''UA'' (fst (cleanup (state_of sk1_first)))))"
proof -
  have r: "state_of sk1_first =
     run [Solve (answering ''sol-A'') (Some (request ''hcaptcha'' ''sk1'' ''rq-1'')) ''UA'']
       (constructor no_options)"
    by (simp add: sk1_first_def)
  have w: "createWorker (answering ''sol-C'') = Normal (Worker 1)"
    by (simp add: answering_def)
  have s: "worker (state_of sk1_first) = Some (Worker 1)" "initialized (state_of sk1_first)"
    "cache (state_of sk1_first) ''hcaptcha:sk1'' = Some ''sol-A''"
    "stats (state_of sk1_first) = \<lparr> total_n = 1, successful = 1, failed = 0, cached = 0 \<rparr>"
    by (simp_all add: sk1_first_eval proj_defs)
  from cleanup_resets_engine [OF r, of "answering ''sol-C''"
      "request ''hcaptcha'' ''sk1'' ''rq-4''" "''UA''" "Worker 1"] r w s
  show ?thesis by simp
qed

text \<open>
  C10. The counters satisfy \<open>total = successful + failed + cached\<close> after construction
  and after every sequence of public operations (\<open>solve\<close>, \<open>clearCache\<close>, \<open>resetStats\<close>,
  \<open>cleanup\<close>), and each operation keeps the equation from any state that has it. A
  \<open>solve\<close> that hits the cache adds one to \<open>total\<close> and one to \<open>cached\<close> and leaves
  \<open>successful\<close> and \<open>failed\<close> as they were; a \<open>solve\<close> that does not hit the cache adds
  one to \<open>total\<close> and one to exactly one of \<open>successful\<close> and \<open>failed\<close>, and leaves
  \<open>cached\<close> as it was.
\<close>

theorem stats_partition:
  "stats_inv (stats (constructor a)) \<and>
   stats_inv (stats (run ops (constructor a))) \<and>
   (stats_inv (stats s) \<longrightarrow> stats_inv (stats (step x s))) \<and>
   (cache_hit s captchaData \<longrightarrow>
      stats (state_of (solve env captchaData userAgent s)) =
        (stats s)\<lparr> total_n := total_n (stats s) + 1, cached := cached (stats s) + 1 \<rparr>) \<and>
   (\<not> cache_hit s captchaData \<longrightarrow>
      stats (state_of (solve env captchaData userAgent s)) =
        (if truthy (case result_of (solve env captchaData userAgent s) of
                      Normal r \<Rightarrow> r | Throw e \<Rightarrow> None)
         then (stats s)\<lparr> total_n := total_n (stats s) + 1,
                          successful := successful (stats s) + 1 \<rparr>
         else (stats s)\<lparr> total_n := total_n (stats s) + 1,
                          failed := failed (stats s) + 1 \<rparr>))"
proof -
  have c: "stats_inv (stats (constructor a))"
    by (simp add: stats_inv_def constructor_def zero_stats_def)
  have r: "stats_inv (stats (run ops (constructor a)))"
    by (rule run_stats_inv [OF c])
  have st: "stats_inv (stats s) \<longrightarrow> stats_inv (stats (step x s))"
    using step_stats_inv by blast
  have h: "cache_hit s captchaData \<longrightarrow>
      stats (state_of (solve env captchaData userAgent s)) =
        (stats s)\<lparr> total_n := total_n (stats s) + 1, cached := cached (stats s) + 1 \<rparr>"
    by (simp add: stats_cases)
  have m: "\<not> cache_hit s captchaData \<longrightarrow>
      stats (state_of (solve env captchaData userAgent s)) =
        (if truthy (case result_of (solve env captchaData userAgent s) of
                      Normal r \<Rightarrow> r | Throw e \<Rightarrow> None)
         then (stats s)\<lparr> total_n := total_n (stats s) + 1,
                          successful := successful (stats s) + 1 \<rparr>
         else (stats s)\<lparr> total_n := total_n (stats s) + 1,
                          failed := failed (stats s) + 1 \<rparr>)"
    by (simp add: stats_cases)
  show ?thesis
    by (rule conjI [OF c conjI [OF r conjI [OF st conjI [OF h m]]]])
qed

theorem stats_partition_witness:
  "stats_inv (stats (state_of sk1_first)) \<and>
   stats_inv (stats (step ResetStats (state_of sk1_first))) \<and>
   cache_hit (state_of sk1_first) (Some (request ''hcaptcha'' ''sk1'' ''rq-2'')) \<and>
   stats (state_of sk1_second) = \<lparr> total_n = 2, successful = 1, failed = 0, cached = 1 \<rparr> \<and>
   \<not> cache_hit (constructor no_options) (Some (request ''hcaptcha'' ''sk1'' ''rq-1'')) \<and>
   stats (state_of sk1_first) = \<lparr> total_n = 1, successful = 1, failed = 0, cached = 0 \<rparr> \<and>
   \<not> cache_hit (constructor no_options) None \<and>
   stats (state_of (solve broken None ''UA'' (constructor no_options))) =
     \<lparr> total_n = 1, successful = 0, failed = 1, cached = 0 \<rparr>"
proof -
  have r: "state_of sk1_first =
     run [Solve (answering ''sol-A'') (Some (request ''hcaptcha'' ''sk1'' ''rq-1'')) ''UA'']
       (constructor no_options)"
    by (simp add: sk1_first_def)
  have i: "stats_inv (stats (state_of sk1_first))"
    unfolding r using stats_partition [of no_options] by blast
  from i stats_partition [of no_options "[]" "state_of sk1_first" ResetStats]
  have j: "stats_inv (stats (step ResetStats (state_of sk1_first)))" by blast
  have h: "cache_hit (state_of sk1_first) (Some (request ''hcaptcha'' ''sk1'' ''rq-2''))"
    by (simp add: cache_hit_def request_def sk1_first_eval proj_defs)
  from h stats_partition [of no_options "[]" "state_of sk1_first" ResetStats
      "Some (request ''hcaptcha'' ''sk1'' ''rq-2'')" "answering ''sol-B''" "''UA''"]
  have k: "stats (state_of sk1_second) =
      (stats (state_of sk1_first))\<lparr> total_n := total_n (stats (state_of sk1_first)) + 1,
         cached := cached (stats (state_of sk1_first)) + 1 \<rparr>"
    unfolding sk1_second_def by blast
  have f: "stats (state_of sk1_first) = \<lparr> total_n = 1, successful = 1, failed = 0, cached = 0 \<rparr>"
    by (simp add: sk1_first_eval proj_defs)
  have n: "\<not> cache_hit (constructor no_options) (Some (request ''hcaptcha'' ''sk1'' ''rq-1''))"
    "\<not> cache_hit (constructor no_options) None"
    by (simp_all add: cache_hit_def request_def constructor_def no_options_def)
  from n(2) stats_partition [of no_options "[]" "constructor no_options" ResetStats
      None broken "''UA''"]
  have b: "stats (state_of (solve broken None ''UA'' (constructor no_options))) =
     \<lparr> total_n = 1, successful = 0, failed = 1, cached = 0 \<rparr>"
    by (simp add: solve_null proj_defs constructor_def zero_stats_def)
  from i j h k f n b show ?thesis by simp
qed

end
